theory Spec2Isabelle
  imports Complex_Main "HOL-Library.Char_ord" "HOL-Library.List_Lexorder" "HOL-Library.Multiset"
begin

section \<open>Python values used by \<open>scripts/plot_ious_analysis.py\<close>\<close>

text \<open>
  Exceptions become values. Every \<open>raise\<close>, failed \<open>assert\<close>, failed lookup and failed
  unpacking of the script is a branch that returns \<open>Inl\<close> of one of these.
\<close>

datatype error =
    UnboundLocalError
  | AssertionError
  | ValueError
  | KeyError
  | IndexError
  | TypeError
  | FileNotFoundError
  | NotImplementedError
  | OSError

subsection \<open>Strings\<close>

text \<open>\<open>sub in s\<close> on Python strings: \<open>sub\<close> occurs in \<open>s\<close> as a contiguous block.\<close>

fun startswith :: "string \<Rightarrow> string \<Rightarrow> bool" where
  "startswith s [] = True"
| "startswith [] (c # p) = False"
| "startswith (d # s) (c # p) = (d = c \<and> startswith s p)"

fun str_in :: "string \<Rightarrow> string \<Rightarrow> bool" where
  "str_in sub [] = (sub = [])"
| "str_in sub (c # s) = (startswith (c # s) sub \<or> str_in sub s)"

definition endswith :: "string \<Rightarrow> string \<Rightarrow> bool" where
  "endswith s p = startswith (rev s) (rev p)"

text \<open>\<open>s.split(sep)\<close> for a single separator character: always at least one field.\<close>

fun split_chr :: "char \<Rightarrow> string \<Rightarrow> string list" where
  "split_chr sep [] = [[]]"
| "split_chr sep (c # s) =
     (if c = sep then [] # split_chr sep s
      else (case split_chr sep s of
              [] \<Rightarrow> [[c]]
            | f # fs \<Rightarrow> (c # f) # fs))"

subsection \<open>Paths\<close>

text \<open>
  A \<open>pathlib\<close> path of the POSIX flavour is its tuple of parts; an absolute path has the
  root \<open>''/''\<close> as its first part. Paths compare as their tuples of parts compare, each
  part as a string (\<open>PurePath.__lt__\<close>), which is the lexicographic order on
  \<open>string list\<close>.
\<close>

type_synonym path = "string list"

definition Path :: "string \<Rightarrow> path" where
  "Path s =
     (let rel = filter (\<lambda>x. x \<noteq> [] \<and> x \<noteq> ''.'') (split_chr CHR ''/'' s)
      in if startswith s ''/''
         then (if startswith s ''//'' \<and> \<not> startswith s ''///'' then ''//'' else ''/'') # rel
         else rel)"

definition is_root :: "string \<Rightarrow> bool" where
  "is_root x = (x = ''/'' \<or> x = ''//'')"

definition is_absolute :: "path \<Rightarrow> bool" where
  "is_absolute p = (case p of [] \<Rightarrow> False | x # _ \<Rightarrow> is_root x)"

text \<open>\<open>p / s\<close>: an absolute right operand replaces the left one.\<close>

definition joinpath :: "path \<Rightarrow> string \<Rightarrow> path" where
  "joinpath p s = (if is_absolute (Path s) then Path s else p @ Path s)"

definition name :: "path \<Rightarrow> string" where
  "name p = (case rev p of [] \<Rightarrow> [] | x # xs \<Rightarrow> (if xs = [] \<and> is_root x then [] else x))"

definition parent :: "path \<Rightarrow> path" where
  "parent p = (case rev p of [] \<Rightarrow> [] | x # xs \<Rightarrow> (if xs = [] \<and> is_root x then p else rev xs))"

text \<open>
  \<open>rfind_dot\<close> is \<open>name.rfind('.')\<close> as an option; \<open>stem_of_name\<close> cuts the last suffix
  when the last dot is neither the first nor the last character.
\<close>

fun rfind_dot :: "string \<Rightarrow> nat option" where
  "rfind_dot [] = None"
| "rfind_dot (c # s) =
     (case rfind_dot s of
        Some i \<Rightarrow> Some (Suc i)
      | None \<Rightarrow> (if c = CHR ''.'' then Some 0 else None))"

definition stem_of_name :: "string \<Rightarrow> string" where
  "stem_of_name n =
     (case rfind_dot n of
        None \<Rightarrow> n
      | Some i \<Rightarrow> (if 0 < i \<and> Suc i < length n then take i n else n))"

definition stem :: "path \<Rightarrow> string" where
  "stem p = stem_of_name (name p)"

section \<open>The input resolver \<open>get_files_list\<close>\<close>

record args =
  folder :: "string option"
  files :: "string list option"
  model_dirs :: "string list option"
  exp_models :: "string list option"
  mode :: "string list option"
  datasets :: "string list"
  n_clicks :: int
  plots_path :: path

record cfg =
  EXPS_PATH :: path

text \<open>
  The file system is read through \<open>Path.glob\<close> only; what a call gives is a parameter
  \<open>glob dir pattern\<close> of the resolver. A call either lists the entries that match, regular
  files and directories alike, or raises: \<open>Path.glob\<close> refuses an absolute pattern with
  \<open>NotImplementedError\<close> and a malformed one (such as \<open>***\<close>) with \<open>ValueError\<close>, and an
  error of the operating system passes through it. The generator that \<open>Path.glob\<close> returns
  is consumed where the script builds a list from it (\<open>list\<close>, \<open>sorted\<close>, \<open>extend\<close>, or
  the first comprehension for \<open>--folder\<close>), with nothing observable in between, so the
  model takes the outcome at the call.
\<close>

type_synonym globber = "path \<Rightarrow> string \<Rightarrow> error + path list"

fun model_dirs_loop :: "globber \<Rightarrow> string list \<Rightarrow> path list \<Rightarrow> error + path list" where
  "model_dirs_loop glob [] files_list = Inr files_list"
| "model_dirs_loop glob (d # ds) files_list =
     (case glob (joinpath (Path d) ''plots'') ''*.pickle'' of
        Inl e \<Rightarrow> Inl e
      | Inr found \<Rightarrow> model_dirs_loop glob ds (files_list @ found))"

text \<open>
  Lines 201-202: the entries that the experiment path fragment may stand for. Nothing
  tests whether an entry is a directory.
\<close>

definition exp_candidates :: "globber \<Rightarrow> cfg \<Rightarrow> string \<Rightarrow> error + path list" where
  "exp_candidates glob c rel_exp_path =
     (let exp_path_prefix = joinpath (joinpath (EXPS_PATH c) ''evaluation_logs'') rel_exp_path
      in glob (parent exp_path_prefix) (stem exp_path_prefix @ ''*''))"

text \<open>
  One round of the \<open>--exp-models\<close> loop. The tuple unpacking of \<open>split(':')\<close> raises
  \<open>ValueError\<close> unless there are exactly two fields; the \<open>assert\<close> raises unless the glob
  has exactly one match; either glob may raise.
\<close>

fun exp_models_loop :: "globber \<Rightarrow> cfg \<Rightarrow> string list \<Rightarrow> path list \<Rightarrow> error + path list" where
  "exp_models_loop glob c [] files_list = Inr files_list"
| "exp_models_loop glob c (e # es) files_list =
     (case split_chr CHR '':'' e of
        [rel_exp_path, checkpoint_prefix] \<Rightarrow>
          (case exp_candidates glob c rel_exp_path of
             Inl err \<Rightarrow> Inl err
           | Inr candidates \<Rightarrow>
               if length candidates \<noteq> 1 then Inl AssertionError
               else (let exp_path = candidates ! 0
                     in (case glob (joinpath exp_path ''plots'') (checkpoint_prefix @ ''*.pickle'') of
                           Inl err \<Rightarrow> Inl err
                         | Inr found \<Rightarrow> exp_models_loop glob c es (files_list @ sort found))))
      | _ \<Rightarrow> Inl ValueError)"

text \<open>
  The \<open>if/elif\<close> chain. \<open>None\<close> is the local \<open>files_list\<close> left unbound: no branch has
  assigned it.
\<close>

definition resolve_source :: "globber \<Rightarrow> args \<Rightarrow> cfg \<Rightarrow> error + path list option" where
  "resolve_source glob a c =
     (case folder a of
        Some f \<Rightarrow> map_sum id Some (glob (Path f) ''*.pickle'')
      | None \<Rightarrow>
     (case files a of
        Some fs \<Rightarrow> Inr (Some (map Path fs))
      | None \<Rightarrow>
     (case model_dirs a of
        Some ds \<Rightarrow> map_sum id Some (model_dirs_loop glob ds [])
      | None \<Rightarrow>
     (case exp_models a of
        Some es \<Rightarrow> map_sum id Some (exp_models_loop glob c es [])
      | None \<Rightarrow> Inr None))))"

definition mode_filter :: "string list \<Rightarrow> path list \<Rightarrow> path list" where
  "mode_filter ms fl = filter (\<lambda>file. list_ex (\<lambda>m. str_in m (stem file)) ms) fl"

definition dataset_filter :: "string list \<Rightarrow> path list \<Rightarrow> path list" where
  "dataset_filter ds fl = filter (\<lambda>file. list_ex (\<lambda>d. str_in d (stem file)) ds) fl"

text \<open>Reading a local variable: unbound raises.\<close>

definition read_local :: "'a option \<Rightarrow> error + 'a" where
  "read_local v = (case v of None \<Rightarrow> Inl UnboundLocalError | Some x \<Rightarrow> Inr x)"

definition post_filter :: "args \<Rightarrow> path list option \<Rightarrow> error + path list" where
  "post_filter a files_list =
     (case (case mode a of
              Some ms \<Rightarrow> map_sum id (\<lambda>fl. Some (mode_filter ms fl)) (read_local files_list)
            | None \<Rightarrow> Inr files_list) of
        Inl e \<Rightarrow> Inl e
      | Inr files_list' \<Rightarrow>
          map_sum id (\<lambda>fl. sort (dataset_filter (datasets a) fl)) (read_local files_list'))"

definition get_files_list :: "globber \<Rightarrow> args \<Rightarrow> cfg \<Rightarrow> error + path list" where
  "get_files_list glob a c =
     (case resolve_source glob a c of
        Inl e \<Rightarrow> Inl e
      | Inr files_list \<Rightarrow> post_filter a files_list)"

section \<open>The aggregator\<close>

text \<open>
  An IoU value is a finite \<open>float64\<close>, taken as the real number it denotes. The rounding
  of \<open>float64\<close> arithmetic is not modelled: the mean that NumPy computes at line 118 is a
  parameter of the model, and the scaling of line 128 and the areas of lines 146-149 are
  written with exact arithmetic, which is what \<open>float64\<close> gives wherever no operation
  rounds.
\<close>

record container =
  dataset_name :: string
  model_name :: string
  all_ious :: "real list list"

text \<open>
  \<open>xs[:k]\<close> on a list or an array: a negative \<open>k\<close> counts from the end, and the bounds
  are clipped.
\<close>

definition slice_to :: "'a list \<Rightarrow> int \<Rightarrow> 'a list" where
  "slice_to xs k = (if 0 \<le> k then take (nat k) xs else take (nat (int (length xs) + k)) xs)"

text \<open>Line 117: \<open>x[:] if args.n_clicks == -1 else x[:args.n_clicks]\<close>.\<close>

definition truncate_ious :: "int \<Rightarrow> 'a list \<Rightarrow> 'a list" where
  "truncate_ious n x = (if n = - 1 then x else slice_to x n)"

text \<open>Lines 126-127: \<open>if args.n_clicks != -1: model_results = model_results[:args.n_clicks]\<close>.\<close>

definition truncate_results :: "int \<Rightarrow> 'a list \<Rightarrow> 'a list" where
  "truncate_results n model_results = (if n \<noteq> - 1 then slice_to model_results n else model_results)"

text \<open>
  \<open>np.array(rows).mean(0)\<close>. An empty list of rows is an array of shape \<open>(0,)\<close>, whose mean
  is the scalar \<open>nan\<close>; rows of different lengths have no common shape, and \<open>np.array\<close>
  raises. Otherwise the result has one element for each column. Its value is the
  \<open>float64\<close> result of NumPy's reduction along axis 0 followed by the division by the
  number of rows, each operation rounded; \<open>mean rows k\<close> stands for that value at column
  \<open>k\<close>, and nothing is assumed of it.
\<close>

datatype ndarray = Scalar_nan | Array "real list"

type_synonym reduction = "real list list \<Rightarrow> nat \<Rightarrow> real"

definition np_mean0 :: "reduction \<Rightarrow> real list list \<Rightarrow> error + ndarray" where
  "np_mean0 mean rows =
     (case rows of
        [] \<Rightarrow> Inr Scalar_nan
      | r # rs \<Rightarrow>
          (if list_all (\<lambda>x. length x = length r) rs
           then Inr (Array (map (mean rows) [0..<length r]))
           else Inl ValueError))"

text \<open>
  The mean of column \<open>k\<close> without rounding. NumPy's result is this number when every
  partial sum and the quotient are \<open>float64\<close> values themselves, as for a single row, or for
  the halves and quarters of the examples below.
\<close>

definition column_mean :: reduction where
  "column_mean rows k = (\<Sum>r \<leftarrow> rows. r ! k) / real (length rows)"

text \<open>
  A Python \<open>dict\<close> keeps its keys in insertion order: storing under a key that is present
  replaces the value in place, storing under a new key appends.
\<close>

fun dict_set :: "'k \<Rightarrow> 'v \<Rightarrow> ('k \<times> 'v) list \<Rightarrow> ('k \<times> 'v) list" where
  "dict_set k v [] = [(k, v)]"
| "dict_set k v ((k', v') # d) = (if k' = k then (k, v) # d else (k', v') # dict_set k v d)"

definition dict_get :: "('k \<times> 'v) list \<Rightarrow> 'k \<Rightarrow> 'v option" where
  "dict_get d k = map_of d k"

type_synonym plot_data = "(string \<times> (string \<times> ndarray) list) list"

text \<open>
  \<open>aggregated_plot_data[ds][m] = v\<close> on a \<open>defaultdict(dict)\<close>: a missing dataset key gets
  an empty inner dictionary first.
\<close>

definition store_result :: "string \<Rightarrow> string \<Rightarrow> ndarray \<Rightarrow> plot_data \<Rightarrow> plot_data" where
  "store_result ds m v agg =
     (let inner = (case dict_get agg ds of None \<Rightarrow> [] | Some d \<Rightarrow> d)
      in dict_set ds (dict_set m v inner) agg)"

definition lookup_result :: "plot_data \<Rightarrow> string \<Rightarrow> string \<Rightarrow> ndarray option" where
  "lookup_result agg ds m = (case dict_get agg ds of None \<Rightarrow> None | Some d \<Rightarrow> dict_get d m)"

text \<open>The body of the first loop of \<open>main\<close>, after the container is unpickled.\<close>

definition aggregate_container :: "reduction \<Rightarrow> int \<Rightarrow> container \<Rightarrow> plot_data \<Rightarrow> error + plot_data" where
  "aggregate_container mean n data agg =
     (case np_mean0 mean (map (truncate_ious n) (all_ious data)) of
        Inl e \<Rightarrow> Inl e
      | Inr v \<Rightarrow> Inr (store_result (dataset_name data) (model_name data) v agg))"

section \<open>Metrics and labels\<close>

subsection \<open>\<open>sklearn.metrics.auc\<close>\<close>

text \<open>
  \<open>auc(x, y)\<close> as the library documents and implements it: \<open>ValueError\<close> when the lengths
  differ or there are fewer than two points; the sign of the \<open>x\<close> steps gives the direction
  (\<open>ValueError\<close> when \<open>x\<close> is neither increasing nor decreasing); the area is
  \<open>direction * np.trapz(y, x)\<close>, and \<open>np.trapz\<close> is \<open>(diff(x) * (y[1:] + y[:-1]) / 2).sum()\<close>.
\<close>

fun diff :: "real list \<Rightarrow> real list" where
  "diff (a # b # r) = (b - a) # diff (b # r)"
| "diff r = []"

definition trapz :: "real list \<Rightarrow> real list \<Rightarrow> real" where
  "trapz y x = sum_list (map2 (\<lambda>d s. d * s / 2) (diff x) (map2 (+) (tl y) (butlast y)))"

definition auc :: "real list \<Rightarrow> real list \<Rightarrow> error + real" where
  "auc x y =
     (if length x \<noteq> length y then Inl ValueError
      else if length x < 2 then Inl ValueError
      else (let dx = diff x
            in if list_ex (\<lambda>d. d < 0) dx
               then (if list_all (\<lambda>d. d \<le> 0) dx then Inr (- trapz y x) else Inl ValueError)
               else Inr (trapz y x)))"

text \<open>\<open>1 + np.arange(n)\<close> and \<open>np.ones(n)\<close>.\<close>

definition clicks_axis :: "nat \<Rightarrow> real list" where
  "clicks_axis n = map (\<lambda>i. 1 + real i) [0..<n]"

definition ones :: "nat \<Rightarrow> real list" where
  "ones n = replicate n 1"

text \<open>Lines 146-149, on the sequence \<open>model_results\<close> that the loop has at that point.\<close>

definition auc_normalized :: "real list \<Rightarrow> error + real" where
  "auc_normalized model_results =
     (let n_clicks = length model_results;
          x = clicks_axis n_clicks
      in (case auc x (ones n_clicks) of
            Inl e \<Rightarrow> Inl e
          | Inr total_area \<Rightarrow>
              (case auc x model_results of
                 Inl e \<Rightarrow> Inl e
               | Inr a \<Rightarrow> Inr (a / total_area))))"

subsection \<open>The lookup tables\<close>

definition model_name_mapper :: "(string \<times> string) list" where
  "model_name_mapper =
     [(''SimpleClick(ViT-B)_NoBRS'', ''SimpleClick-ViT-B (SBD)''),
      (''MFP_SimpleClick_V8_NoBRS'', ''Ours-ViT-B (SBD)''),
      (''GPCIS-ResNet50_Baseline'', ''GPCIS-ResNet34 (SBD)''),
      (''RITM-HRNet18_NoBRS'', ''RITM-HRNet18 (SBD)''),
      (''CDNet-HRNet18_CDNet'', ''CDNet-ResNet34 (SBD)''),
      (''cocolvis_vitl_epoch_54_NoBRS'', ''Ours-ViT-L (C+L)''),
      (''cocolvis_vith_epoch_52_NoBRS'', ''Ours-ViT-H (C+L)''),
      (''052_NoBRS'', ''Ours-ViT-H (C+L)''),
      (''sbd_h18_itermask_NoBRS'', ''RITM-HRNet18 (SBD)''),
      (''coco_lvis_h32_itermask_NoBRS'', ''RITM-HRNet32 (C+L)''),
      (''cocolvis_segformer_b3_s2_FocalClick'', ''FocalClick-SegF-B3 (C+L)''),
      (''cocolvis_segformer_b0_s2_FocalClick'', ''FocalClick-SegF-B0 (C+L)''),
      (''sbd_cdnet_resnet34_CDNet'', ''CDNet-ResNet-34 (SBD)''),
      (''cocolvis_cdnet_resnet34_CDNet'', ''CDNet-ResNet-34 (C+L)'')]"

definition color_style_mapper :: "(string \<times> string \<times> string) list" where
  "color_style_mapper =
     [(''Ours-ViT-B (SBD)'', ''#0000ff'', ''-''),
      (''SimpleClick-ViT-B (SBD)'', ''#ff8000'', ''-''),
      (''GPCIS-ResNet34 (SBD)'', ''#0080ff'', ''-''),
      (''CDNet-ResNet34 (SBD)'', ''#008000'', ''-''),
      (''Ours-ViT-L (C+L)'', ''#8000ff'', ''-''),
      (''Ours-ViT-H (C+L)'', ''#ff8000'', ''-''),
      (''RITM-HRNet18 (SBD)'', ''#444444'', ''-''),
      (''RITM-HRNet32 (C+L)'', ''#444444'', '':''),
      (''FocalClick-SegF-B0 (C+L)'', ''#888888'', '':''),
      (''FocalClick-SegF-B3 (C+L)'', ''#888888'', '':''),
      (''CDNet-ResNet-34 (SBD)'', [], '':''),
      (''CDNet-ResNet-34 (C+L)'', [], '':'')]"

definition range_mapper :: "(string \<times> int \<times> int \<times> int) list" where
  "range_mapper =
     [(''SBD'', 65, 96, 3),
      (''DAVIS'', 66, 97, 3),
      (''Pascal VOC'', 66, 100, 3),
      (''COCO_MVal'', 60, 97, 3),
      (''BraTS'', 10, 100, 10),
      (''OAIZIB'', 0, 85, 10),
      (''ssTEM'', 5, 100, 10),
      (''GrabCut'', 80, 100, 2),
      (''Berkeley'', 80, 100, 2)]"

subsection \<open>One model's curve\<close>

record curve =
  label :: string
  auc_norm :: real
  color_style :: "(string \<times> string) option"
  points :: "real list"

text \<open>
  \<open>plt.plot(..., color=color, linestyle=style)\<close> at line 151 creates the line, and
  Matplotlib checks the colour then: a string that names no colour raises \<open>ValueError\<close>.
  The colours of \<open>color_style_mapper\<close> are hexadecimal strings (\<open>#\<close> and 3, 4, 6 or 8
  hexadecimal digits), which are colours, and the empty string, which is not; named
  colours do not occur in the table and are left out. The two line styles of the table
  are valid, and without a table entry both arguments are \<open>None\<close>, the defaults.
\<close>

definition is_hex_digit :: "char \<Rightarrow> bool" where
  "is_hex_digit c = (c \<in> set ''0123456789abcdefABCDEF'')"

definition is_color_like :: "string \<Rightarrow> bool" where
  "is_color_like s =
     (case s of
        [] \<Rightarrow> False
      | c # h \<Rightarrow> c = CHR ''#'' \<and> length h \<in> set [3, 4, 6, 8] \<and> list_all is_hex_digit h)"

definition plt_plot :: "(string \<times> string) option \<Rightarrow> error + unit" where
  "plt_plot cs =
     (case cs of
        None \<Rightarrow> Inr ()
      | Some (color, style) \<Rightarrow> if is_color_like color then Inr () else Inl ValueError)"

text \<open>
  The body of the inner loop of \<open>main\<close> (lines 126-151). On the scalar \<open>nan\<close> the slice
  raises \<open>IndexError\<close> and, without a cap, \<open>min\<close> raises \<open>TypeError\<close>; \<open>min\<close> of an empty
  array raises \<open>ValueError\<close>; then come the two areas and, last, the line. The running
  \<open>min_val\<close> and \<open>max_val\<close> are overwritten at line 160 before any use and the milestone
  string is only printed, so neither is kept.
\<close>

definition plot_model :: "int \<Rightarrow> string \<Rightarrow> ndarray \<Rightarrow> error + curve" where
  "plot_model n mname res =
     (case res of
        Scalar_nan \<Rightarrow> (if n \<noteq> - 1 then Inl IndexError else Inl TypeError)
      | Array v \<Rightarrow>
          (let model_results = map (\<lambda>y. y * 100) (truncate_results n v)
           in if model_results = [] then Inl ValueError
              else (let lbl = (case dict_get model_name_mapper mname of
                                 Some l \<Rightarrow> l
                               | None \<Rightarrow> mname);
                        cs = dict_get color_style_mapper lbl
                    in (case auc_normalized model_results of
                          Inl e \<Rightarrow> Inl e
                        | Inr an \<Rightarrow>
                            (case plt_plot cs of
                               Inl e \<Rightarrow> Inl e
                             | Inr u \<Rightarrow>
                                 Inr \<lparr>label = lbl, auc_norm = an, color_style = cs,
                                      points = model_results\<rparr>)))))"

text \<open>The inner loop: the curves drawn so far and \<open>max_clicks\<close>.\<close>

fun models_loop :: "int \<Rightarrow> (string \<times> ndarray) list \<Rightarrow> curve list \<Rightarrow> nat \<Rightarrow> error + curve list \<times> nat" where
  "models_loop n [] curves max_clicks = Inr (curves, max_clicks)"
| "models_loop n ((mname, res) # rest) curves max_clicks =
     (case plot_model n mname res of
        Inl e \<Rightarrow> Inl e
      | Inr cv \<Rightarrow> models_loop n rest (curves @ [cv]) (max max_clicks (length (points cv))))"

section \<open>The renderer\<close>

subsection \<open>\<open>int(s)\<close> and \<open>f'{index:03d}'\<close>\<close>

text \<open>
  \<open>int\<close> of a string, on ASCII text: surrounding white space is dropped, one sign is
  allowed, and at least one digit must follow and nothing else. The white space that
  \<open>int\<close> drops is that of C's \<open>isspace\<close>, the characters \<open>0x09\<close> to \<open>0x0D\<close> and the blank;
  the separators \<open>0x1C\<close> to \<open>0x1F\<close>, which \<open>str.isspace\<close> accepts, are not dropped. (The
  argument below is a field of \<open>split('_')\<close>, so the underscores that \<open>int\<close> allows between
  digits cannot occur.)
\<close>

definition is_space :: "char \<Rightarrow> bool" where
  "is_space c = (c \<in> set [CHR 0x09, CHR 0x0A, CHR 0x0B, CHR 0x0C, CHR 0x0D, CHR 0x20])"

definition strip :: "string \<Rightarrow> string" where
  "strip s = rev (dropWhile is_space (rev (dropWhile is_space s)))"

definition is_digit :: "char \<Rightarrow> bool" where
  "is_digit c = (c \<in> set ''0123456789'')"

definition digit_val :: "char \<Rightarrow> nat" where
  "digit_val c = of_char c - 48"

definition digits_val :: "string \<Rightarrow> nat" where
  "digits_val s = foldl (\<lambda>acc c. 10 * acc + digit_val c) 0 s"

definition py_int :: "string \<Rightarrow> error + int" where
  "py_int s =
     (let t = strip s;
          neg = startswith t ''-'';
          d = (if startswith t ''-'' \<or> startswith t ''+'' then tl t else t)
      in if d \<noteq> [] \<and> list_all is_digit d
         then Inr (if neg then - int (digits_val d) else int (digits_val d))
         else Inl ValueError)"

definition digit_chr :: "nat \<Rightarrow> char" where
  "digit_chr d = ''0123456789'' ! d"

fun digits :: "nat \<Rightarrow> string" where
  "digits n = (if n < 10 then [digit_chr n] else digits (n div 10) @ [digit_chr (n mod 10)])"

declare digits.simps [simp del]

definition zfill :: "nat \<Rightarrow> string \<Rightarrow> string" where
  "zfill w s = replicate (w - length s) CHR ''0'' @ s"

text \<open>The format \<open>03d\<close>: at least three characters, the sign of a negative number among them.\<close>

definition format_03d :: "int \<Rightarrow> string" where
  "format_03d i =
     (if i < 0 then CHR ''-'' # zfill 2 (digits (nat (- i))) else zfill 3 (digits (nat i)))"

subsection \<open>The output directory\<close>

text \<open>
  The state a run changes: the container files it has opened, the entries of the file
  system it writes to, and the figures it has saved, in order.
\<close>

record figure =
  title :: string
  curves :: "curve list"
  yticks :: "int \<times> int \<times> int"
  xticks :: nat

record world =
  opened :: "path list"
  fs_files :: "path list"
  saved :: "(path \<times> figure) list"

text \<open>
  \<open>plots_path.glob(f'{dataset_name}_*.png')\<close>: the entries directly under \<open>plots_path\<close>
  whose name starts with the dataset name and an underscore and ends with \<open>.png\<close>. This is
  what the pattern matches when the dataset name has none of the characters that a glob
  pattern reads specially (\<open>plain\<close>).
\<close>

definition plain :: "string \<Rightarrow> bool" where
  "plain s = (\<forall>c \<in> set s. c \<notin> set ''*?[/'')"

definition fnmatch_star :: "string \<Rightarrow> string \<Rightarrow> string \<Rightarrow> bool" where
  "fnmatch_star pre suf n =
     (length pre + length suf \<le> length n \<and> startswith n pre \<and> endswith n suf)"

definition glob_plots :: "path list \<Rightarrow> path \<Rightarrow> string \<Rightarrow> path list" where
  "glob_plots fs dir ds =
     filter (\<lambda>p. p \<noteq> dir \<and> parent p = dir \<and> fnmatch_star (ds @ ''_'') ''.png'' (name p)) fs"

text \<open>The file name of line 178: \<open>f'{dataset_name}_{index:03d}.png'\<close>.\<close>

definition plot_file_name :: "string \<Rightarrow> int \<Rightarrow> string" where
  "plot_file_name ds index = ds @ ''_'' @ format_03d index @ ''.png''"

definition get_target_file_path :: "path list \<Rightarrow> path \<Rightarrow> string \<Rightarrow> error + path" where
  "get_target_file_path fs pp ds =
     (let previous_plots = sort (glob_plots fs pp ds)
      in (case (if length previous_plots = 0 then Inr 0
                else map_sum id (\<lambda>i. i + 1)
                       (py_int (last (split_chr CHR ''_'' (stem (last previous_plots)))))) of
            Inl e \<Rightarrow> Inl e
          | Inr index \<Rightarrow> Inr (joinpath pp (plot_file_name ds index))))"

definition savefig :: "path \<Rightarrow> figure \<Rightarrow> world \<Rightarrow> world" where
  "savefig p fig w = w\<lparr>fs_files := List.insert p (fs_files w), saved := saved w @ [(p, fig)]\<rparr>"

subsection \<open>One figure per dataset\<close>

definition display_name :: "string \<Rightarrow> string" where
  "display_name ds = (if ds = ''PascalVOC'' then ''Pascal VOC'' else ds)"

text \<open>
  The body of the outer loop of \<open>main\<close> (lines 121-168): the curves, then the title under
  the display name, the axis range looked up in \<open>range_mapper\<close> (\<open>KeyError\<close> when absent),
  the target path and the save.
\<close>

definition render_dataset :: "args \<Rightarrow> string \<Rightarrow> (string \<times> ndarray) list \<Rightarrow> world \<Rightarrow> (error + unit) \<times> world" where
  "render_dataset a ds results w =
     (case models_loop (n_clicks a) results [] 0 of
        Inl e \<Rightarrow> (Inl e, w)
      | Inr (cvs, max_clicks) \<Rightarrow>
          (let ds' = display_name ds
           in (case dict_get range_mapper ds' of
                 None \<Rightarrow> (Inl KeyError, w)
               | Some rng \<Rightarrow>
                   (case get_target_file_path (fs_files w) (plots_path a) ds' of
                      Inl e \<Rightarrow> (Inl e, w)
                    | Inr fig_path \<Rightarrow>
                        (Inr (),
                         savefig fig_path
                           \<lparr>title = ds', curves = cvs, yticks = rng, xticks = max_clicks\<rparr> w)))))"

fun render_loop :: "args \<Rightarrow> plot_data \<Rightarrow> world \<Rightarrow> (error + unit) \<times> world" where
  "render_loop a [] w = (Inr (), w)"
| "render_loop a ((ds, results) # rest) w =
     (case render_dataset a ds results w of
        (Inl e, w') \<Rightarrow> (Inl e, w')
      | (Inr u, w') \<Rightarrow> render_loop a rest w')"

section \<open>\<open>main\<close>\<close>

text \<open>
  Unpickling is a lookup in the store of container files; a path with no container there
  cannot be opened.
\<close>

type_synonym pickles = "path \<Rightarrow> container option"

fun aggregate_loop :: "reduction \<Rightarrow> pickles \<Rightarrow> int \<Rightarrow> path list \<Rightarrow> plot_data \<Rightarrow> world \<Rightarrow> (error + plot_data) \<times> world" where
  "aggregate_loop mean pk n [] agg w = (Inr agg, w)"
| "aggregate_loop mean pk n (file # rest) agg w =
     (let w' = w\<lparr>opened := opened w @ [file]\<rparr>
      in (case pk file of
            None \<Rightarrow> (Inl FileNotFoundError, w')
          | Some data \<Rightarrow>
              (case aggregate_container mean n data agg of
                 Inl e \<Rightarrow> (Inl e, w')
               | Inr agg' \<Rightarrow> aggregate_loop mean pk n rest agg' w')))"

definition main :: "reduction \<Rightarrow> globber \<Rightarrow> pickles \<Rightarrow> args \<Rightarrow> cfg \<Rightarrow> world \<Rightarrow> (error + unit) \<times> world" where
  "main mean glob pk a c w =
     (case get_files_list glob a c of
        Inl e \<Rightarrow> (Inl e, w)
      | Inr files_list \<Rightarrow>
          (case aggregate_loop mean pk (n_clicks a) files_list [] w of
             (Inl e, w') \<Rightarrow> (Inl e, w')
           | (Inr agg, w') \<Rightarrow> render_loop a agg w'))"

section \<open>Properties of the aggregator\<close>

subsection \<open>The stored sequence\<close>

lemma np_mean0_length:
  assumes "rows \<noteq> []" and "\<forall>x \<in> set rows. length x = N"
  shows "\<exists>v. np_mean0 mean rows = Inr (Array v) \<and> length v = N \<and>
             (\<forall>k < N. v ! k = mean rows k)"
proof -
  from assms(1) obtain r rs where rows: "rows = r # rs"
    by (cases rows) auto
  from assms(2) rows have r: "length r = N" and rs: "\<forall>x \<in> set rs. length x = N"
    by auto
  show ?thesis
    using r rs by (simp add: rows np_mean0_def list_all_iff)
qed

lemma dict_get_set: "dict_get (dict_set k v d) k = Some v"
  by (induction d) (auto simp: dict_get_def)

lemma lookup_store: "lookup_result (store_result ds m v agg) ds m = Some v"
  by (simp add: lookup_result_def store_result_def Let_def dict_get_set)

text \<open>
  A container with at least one per-image sequence, all of length \<open>N\<close> once truncated: the
  aggregator stores under (dataset name, model name) an array of length \<open>N\<close>, whose \<open>k\<close>-th
  element is what the reduction gives for column \<open>k\<close> of the truncated sequences.
\<close>

lemma aggregate_columns:
  assumes "all_ious data \<noteq> []"
    and "\<forall>x \<in> set (all_ious data). length (truncate_ious n x) = N"
  shows "\<exists>agg' v. aggregate_container mean n data agg = Inr agg' \<and>
           lookup_result agg' (dataset_name data) (model_name data) = Some (Array v) \<and>
           length v = N \<and>
           (\<forall>k < N. v ! k = mean (map (truncate_ious n) (all_ious data)) k)"
proof -
  let ?rows = "map (truncate_ious n) (all_ious data)"
  have ne: "?rows \<noteq> []" using assms(1) by simp
  have eq: "\<forall>x \<in> set ?rows. length x = N" using assms(2) by simp
  from np_mean0_length [OF ne eq, of mean] obtain v where
    v: "np_mean0 mean ?rows = Inr (Array v)" "length v = N"
       "\<forall>k < N. v ! k = mean ?rows k"
    by blast
  show ?thesis
    using v by (simp add: aggregate_container_def lookup_store)
qed

subsection \<open>Truncation to the click cap\<close>

lemma slice_to_twice: "0 \<le> k \<Longrightarrow> slice_to (slice_to xs k) k = slice_to xs k"
  by (simp add: slice_to_def)

lemma nat_from_end: "n < 0 \<Longrightarrow> nat (int L + n) = L - nat (- n)"
  by arith

lemma truncate_ious_cases:
  "truncate_ious n s =
     (if n = - 1 then s else if 0 \<le> n then take (nat n) s else take (length s - nat (- n)) s)"
  by (simp add: truncate_ious_def slice_to_def nat_from_end)

lemma length_truncate_ious:
  "length (truncate_ious n s) =
     (if n = - 1 then length s else if 0 \<le> n then min (length s) (nat n) else length s - nat (- n))"
  unfolding truncate_ious_cases by simp

text \<open>
  C3, as the code has it. The cap \<open>-1\<close> keeps a sequence whole and a cap \<open>n \<ge> 0\<close> keeps its
  first \<open>n\<close> entries (none for \<open>0\<close>); any other negative cap is a Python slice bound counted
  from the end and drops the last \<open>-n\<close> entries. For a container with at least one
  sequence, all of length \<open>L\<close>, the stored mean has the truncated length.
\<close>

theorem truncation_by_click_cap:
  assumes "all_ious data \<noteq> []" and "\<forall>x \<in> set (all_ious data). length x = L"
  shows "(n = - 1 \<longrightarrow> truncate_ious n s = s) \<and>
         (0 \<le> n \<longrightarrow> truncate_ious n s = take (nat n) s) \<and>
         (n < - 1 \<longrightarrow> truncate_ious n s = take (length s - nat (- n)) s) \<and>
         (\<exists>agg' v. aggregate_container mean n data agg = Inr agg' \<and>
            lookup_result agg' (dataset_name data) (model_name data) = Some (Array v) \<and>
            length v = (if n = - 1 then L else if 0 \<le> n then min L (nat n) else L - nat (- n)))"
proof -
  let ?N = "if n = - 1 then L else if 0 \<le> n then min L (nat n) else L - nat (- n)"
  have "\<forall>x \<in> set (all_ious data). length (truncate_ious n x) = ?N"
    using assms(2) by (simp add: length_truncate_ious)
  from aggregate_columns [OF assms(1) this, of mean agg]
  have "\<exists>agg' v. aggregate_container mean n data agg = Inr agg' \<and>
            lookup_result agg' (dataset_name data) (model_name data) = Some (Array v) \<and>
            length v = ?N"
    by blast
  moreover have "n = - 1 \<longrightarrow> truncate_ious n s = s"
    by (simp add: truncate_ious_def)
  moreover have "0 \<le> n \<longrightarrow> truncate_ious n s = take (nat n) s"
    by (simp add: truncate_ious_def slice_to_def)
  moreover have "n < - 1 \<longrightarrow> truncate_ious n s = take (length s - nat (- n)) s"
    by (simp add: truncate_ious_def slice_to_def nat_from_end)
  ultimately show ?thesis
    by blast
qed

theorem truncation_by_click_cap_witness:
  "truncate_ious 2 [1, 2, 3 :: real] = take (nat 2) [1, 2, 3] \<and>
   (\<exists>agg' v.
      aggregate_container column_mean 2
        \<lparr>dataset_name = ''GrabCut'', model_name = ''m'',
         all_ious = [[1 / 2, 3 / 4, 1], [1 / 4, 1 / 2, 1]]\<rparr> [] = Inr agg' \<and>
      lookup_result agg' ''GrabCut'' ''m'' = Some (Array v) \<and> length v = 2)"
proof -
  let ?d = "\<lparr>dataset_name = ''GrabCut'', model_name = ''m'',
             all_ious = [[1 / 2, 3 / 4, 1], [1 / 4, 1 / 2, 1 :: real]]\<rparr>"
  have h1: "all_ious ?d \<noteq> []" by simp
  have h2: "\<forall>x \<in> set (all_ious ?d). length x = 3" by simp
  from truncation_by_click_cap [OF h1 h2, of 2 "[1, 2, 3 :: real]" column_mean "[]"]
  show ?thesis by simp
qed

text \<open>
  C3 as stated fails: the caps \<open>0\<close> and \<open>-2\<close> are not positive, and the sequence is not kept
  whole.
\<close>

theorem nonpositive_cap_not_whole:
  "\<not> (0 :: int) < 0 \<and> truncate_ious 0 [1 / 2, 3 / 4 :: real] = [] \<and>
   \<not> (- 2 :: int) > 0 \<and> truncate_ious (- 2) [1 / 4, 1 / 2, 3 / 4 :: real] = [1 / 4]"
  by (simp add: truncate_ious_def slice_to_def)

text \<open>
  C4, as the code has it. For the cap \<open>-1\<close> and for every cap \<open>C \<ge> 0\<close>, truncating the
  per-image sequence (line 117) and truncating the result again as the inner loop does
  (line 127) gives what the first truncation gave.
\<close>

theorem truncation_idempotent:
  "- 1 \<le> C \<Longrightarrow> truncate_results C (truncate_ious C s) = truncate_ious C s"
  by (cases "C = - 1") (simp_all add: truncate_results_def truncate_ious_def slice_to_twice)

theorem truncation_idempotent_witness:
  "(- 1 :: int) \<le> 3 \<and>
   truncate_results 3 (truncate_ious 3 [1, 2, 3, 4, 5 :: real]) = truncate_ious 3 [1, 2, 3, 4, 5]"
  using truncation_idempotent [of 3 "[1, 2, 3, 4, 5 :: real]"] by simp

text \<open>
  C4 as stated fails for the cap \<open>-2\<close>: each truncation drops two more entries.
\<close>

theorem truncation_twice_differs:
  "truncate_ious (- 2) [1, 2, 3, 4, 5 :: real] = [1, 2, 3] \<and>
   truncate_results (- 2) (truncate_ious (- 2) [1, 2, 3, 4, 5 :: real]) = [1]"
  by (simp add: truncate_results_def truncate_ious_def slice_to_def)

section \<open>Properties of the normalized area\<close>

lemma diff_axis: "diff (map (\<lambda>i. 1 + real i) [m..<m + k]) = replicate (k - 1) 1"
proof (induction k arbitrary: m)
  case 0
  then show ?case by simp
next
  case (Suc k)
  show ?case
  proof (cases k)
    case 0
    then show ?thesis by simp
  next
    case (Suc j)
    have "[m..<m + Suc k] = m # Suc m # [Suc (Suc m)..<Suc m + k]"
      using Suc by (simp add: upt_conv_Cons)
    moreover have "[Suc m..<Suc m + k] = Suc m # [Suc (Suc m)..<Suc m + k]"
      using Suc by (simp add: upt_conv_Cons)
    ultimately show ?thesis
      using Suc.IH [of "Suc m"] Suc by simp
  qed
qed

lemma diff_clicks_axis: "diff (clicks_axis n) = replicate (n - 1) 1"
  using diff_axis [of 0 n] by (simp add: clicks_axis_def)

lemma map2_replicate: "map2 f (replicate n a) (replicate n b) = replicate n (f a b)"
  by (induction n) simp_all

lemma trapz_constant: "trapz (replicate n c) (clicks_axis n) = real (n - 1) * c"
  by (simp add: trapz_def diff_clicks_axis butlast_conv_take min_def map2_replicate
      sum_list_replicate)

lemma auc_constant: "2 \<le> n \<Longrightarrow> auc (clicks_axis n) (replicate n c) = Inr (real (n - 1) * c)"
  by (simp add: auc_def diff_clicks_axis trapz_constant list_ex_iff list_all_iff)
     (simp add: clicks_axis_def)

lemma auc_normalized_constant: "2 \<le> n \<Longrightarrow> auc_normalized (replicate n c) = Inr c"
  by (simp add: auc_normalized_def Let_def ones_def auc_constant)

text \<open>
  C2. For every length \<open>n \<ge> 2\<close>, the normalized AUC of the sequence of \<open>n\<close> values \<open>1.0\<close>
  (its trapezoidal area over \<open>x = 1..n\<close> divided by that of the constant-1 curve over the
  same \<open>x\<close>) is exactly \<open>1\<close>.
\<close>

theorem auc_normalized_flat_one:
  "2 \<le> n \<Longrightarrow> auc_normalized (replicate n 1) = Inr 1"
  by (rule auc_normalized_constant)

theorem auc_normalized_flat_one_witness:
  "(2 :: nat) \<le> 5 \<and> auc_normalized (replicate 5 1) = Inr 1"
  using auc_normalized_flat_one [of 5] by simp

text \<open>
  In \<open>main\<close> the sequence handed to lines 146-149 is the mean IoU already scaled by 100
  (line 128): a model whose mean IoU is \<open>1.0\<close> at each of \<open>n \<ge> 2\<close> clicks, and whose line
  Matplotlib accepts, gets the normalized area \<open>100\<close> in its legend entry.
\<close>

lemma plot_model_flat_iou:
  assumes "2 \<le> n"
    and "plt_plot (dict_get color_style_mapper
                    (case dict_get model_name_mapper m of Some l \<Rightarrow> l | None \<Rightarrow> m)) = Inr ()"
  shows "\<exists>cv. plot_model (- 1) m (Array (replicate n 1)) = Inr cv \<and> auc_norm cv = 100"
  using assms
  by (simp add: plot_model_def truncate_results_def Let_def auc_normalized_constant)

section \<open>Properties of the input resolver\<close>

lemma startswith_iff: "startswith s p \<longleftrightarrow> (\<exists>v. s = p @ v)"
  by (induction s p rule: startswith.induct) auto

lemma str_in_iff: "str_in sub s \<longleftrightarrow> (\<exists>u v. s = u @ sub @ v)"
proof (induction s)
  case Nil
  then show ?case by auto
next
  case (Cons c s)
  have "(\<exists>u v. c # s = u @ sub @ v) \<longleftrightarrow> (\<exists>v. c # s = sub @ v) \<or> (\<exists>u v. s = u @ sub @ v)"
  proof
    assume "\<exists>u v. c # s = u @ sub @ v"
    then obtain u v where uv: "c # s = u @ sub @ v" by blast
    show "(\<exists>v. c # s = sub @ v) \<or> (\<exists>u v. s = u @ sub @ v)"
    proof (cases u)
      case Nil
      with uv show ?thesis by auto
    next
      case (Cons d u')
      with uv have "s = u' @ sub @ v" by simp
      then show ?thesis by blast
    qed
  next
    assume "(\<exists>v. c # s = sub @ v) \<or> (\<exists>u v. s = u @ sub @ v)"
    then show "\<exists>u v. c # s = u @ sub @ v"
    proof
      assume "\<exists>v. c # s = sub @ v"
      then obtain v where "c # s = [] @ sub @ v" by auto
      then show ?thesis by blast
    next
      assume "\<exists>u v. s = u @ sub @ v"
      then obtain u v where "c # s = (c # u) @ sub @ v" by auto
      then show ?thesis by blast
    qed
  qed
  with Cons.IH show ?case
    by (simp add: startswith_iff)
qed

lemma split_chr_no_sep: "sep \<notin> set s \<Longrightarrow> split_chr sep s = [s]"
  by (induction s) auto

lemma split_chr_one_sep:
  "sep \<notin> set u \<Longrightarrow> sep \<notin> set v \<Longrightarrow> split_chr sep (u @ sep # v) = [u, v]"
  by (induction u) (auto simp: split_chr_no_sep)

subsection \<open>No source flag\<close>

text \<open>
  C10. When none of \<open>--folder\<close>, \<open>--files\<close>, \<open>--model-dirs\<close>, \<open>--exp-models\<close> is given, no
  branch assigns \<open>files_list\<close>, and the resolver fails with \<open>UnboundLocalError\<close> at the
  first filter that reads it; it returns no list.
\<close>

theorem no_source_unbound_local:
  assumes "folder a = None" and "files a = None" and "model_dirs a = None"
    and "exp_models a = None"
  shows "get_files_list glob a c = Inl UnboundLocalError"
  using assms
  by (cases "mode a")
     (simp_all add: get_files_list_def resolve_source_def post_filter_def read_local_def)

theorem no_source_unbound_local_witness:
  "get_files_list (\<lambda>d p. Inr [])
     \<lparr>folder = None, files = None, model_dirs = None, exp_models = None, mode = None,
      datasets = [''GrabCut''], n_clicks = - 1, plots_path = [''plots'']\<rparr>
     \<lparr>EXPS_PATH = [''experiments'']\<rparr> = Inl UnboundLocalError"
  using no_source_unbound_local
    [of "\<lparr>folder = None, files = None, model_dirs = None, exp_models = None, mode = None,
          datasets = [''GrabCut''], n_clicks = - 1, plots_path = [''plots'']\<rparr>"
        "\<lambda>d p. Inr []" "\<lparr>EXPS_PATH = [''experiments'']\<rparr>"]
  by simp

subsection \<open>The post-filter\<close>

lemma get_files_list_resolved:
  assumes "resolve_source glob a c = Inr (Some src)"
  shows "get_files_list glob a c =
           Inr (sort (filter
                  (\<lambda>file. (case mode a of
                              None \<Rightarrow> True
                            | Some ms \<Rightarrow> \<exists>m \<in> set ms. str_in m (stem file)) \<and>
                           (\<exists>d \<in> set (datasets a). str_in d (stem file))) src))"
  using assms
  by (cases "mode a")
     (simp_all add: get_files_list_def post_filter_def read_local_def mode_filter_def
        dataset_filter_def list_ex_iff conj_commute)

lemma get_files_list_Inr_resolved:
  assumes "get_files_list glob a c = Inr fl"
  shows "\<exists>src. resolve_source glob a c = Inr (Some src)"
proof (cases "resolve_source glob a c")
  case (Inl e)
  with assms show ?thesis by (simp add: get_files_list_def)
next
  case (Inr v)
  show ?thesis
  proof (cases v)
    case None
    with Inr assms show ?thesis
      by (cases "mode a") (simp_all add: get_files_list_def post_filter_def read_local_def)
  next
    case (Some src)
    with Inr show ?thesis by simp
  qed
qed

text \<open>
  C6, as the code has it. The post-filter keeps exactly the resolved files whose stem (the
  last path component without its last suffix) contains one of the listed click-modes,
  whenever \<open>--mode\<close> is given, and contains one of the dataset substrings. The mode
  filter is skipped only when \<open>--mode\<close> is absent (\<open>None\<close>); \<open>--mode\<close> with an empty list
  keeps no file.
\<close>

theorem post_filter_keeps:
  assumes "resolve_source glob a c = Inr (Some src)"
  shows "get_files_list glob a c =
           Inr (sort (filter
                  (\<lambda>file. (case mode a of
                              None \<Rightarrow> True
                            | Some ms \<Rightarrow> \<exists>m \<in> set ms. \<exists>u v. stem file = u @ m @ v) \<and>
                           (\<exists>d \<in> set (datasets a). \<exists>u v. stem file = u @ d @ v)) src))"
  using get_files_list_resolved [OF assms] by (cases "mode a") (simp_all add: str_in_iff)

theorem post_filter_keeps_witness:
  "get_files_list (\<lambda>d p. Inr [])
     \<lparr>folder = None,
      files = Some [''GrabCut_RGB-BRS.pickle'', ''GrabCut_NoBRS.pickle'', ''DAVIS_NoBRS.pickle''],
      model_dirs = None, exp_models = None, mode = Some [''NoBRS''],
      datasets = [''GrabCut''], n_clicks = - 1, plots_path = [''plots'']\<rparr>
     \<lparr>EXPS_PATH = [''experiments'']\<rparr> = Inr [[''GrabCut_NoBRS.pickle'']]"
proof -
  let ?a = "\<lparr>folder = None,
      files = Some [''GrabCut_RGB-BRS.pickle'', ''GrabCut_NoBRS.pickle'', ''DAVIS_NoBRS.pickle''],
      model_dirs = None, exp_models = None, mode = Some [''NoBRS''],
      datasets = [''GrabCut''], n_clicks = - 1, plots_path = [''plots'']\<rparr>"
  let ?c = "\<lparr>EXPS_PATH = [''experiments'']\<rparr>"
  let ?src = "[[''GrabCut_RGB-BRS.pickle''], [''GrabCut_NoBRS.pickle''], [''DAVIS_NoBRS.pickle'']]"
  have "resolve_source (\<lambda>d p. Inr []) ?a ?c = Inr (Some ?src)"
    by (simp add: resolve_source_def Path_def)
  from post_filter_keeps [OF this, unfolded str_in_iff [symmetric]] show ?thesis
    by (simp add: stem_def name_def stem_of_name_def is_root_def)
qed

text \<open>
  C6 as stated fails: with \<open>--mode\<close> given without values no click-mode is requested, the
  file's name contains the requested dataset name, and the file is removed.
\<close>

theorem empty_mode_list_keeps_nothing:
  "str_in ''GrabCut'' (name (Path ''GrabCut_NoBRS.pickle'')) \<and>
   get_files_list (\<lambda>d p. Inr [])
     \<lparr>folder = None, files = Some [''GrabCut_NoBRS.pickle''], model_dirs = None,
      exp_models = None, mode = Some [],
      datasets = [''GrabCut''], n_clicks = - 1, plots_path = [''plots'']\<rparr>
     \<lparr>EXPS_PATH = [''experiments'']\<rparr> = Inr []"
  by (simp add: get_files_list_def resolve_source_def post_filter_def read_local_def
      mode_filter_def dataset_filter_def Path_def name_def is_root_def)

text \<open>
  The filters read the stem, not the whole name: a file whose only occurrence of the
  dataset name is in its last suffix is removed.
\<close>

lemma filter_reads_stem:
  "str_in ''GrabCut'' (name (Path ''results.GrabCut'')) \<and>
   get_files_list (\<lambda>d p. Inr [])
     \<lparr>folder = None, files = Some [''results.GrabCut''], model_dirs = None,
      exp_models = None, mode = None,
      datasets = [''GrabCut''], n_clicks = - 1, plots_path = [''plots'']\<rparr>
     \<lparr>EXPS_PATH = [''experiments'']\<rparr> = Inr []"
  by (simp add: get_files_list_def resolve_source_def post_filter_def read_local_def
      dataset_filter_def Path_def name_def is_root_def stem_def stem_of_name_def)

subsection \<open>Order and duplicates\<close>

lemma count_list_filter: "count_list (filter P xs) x = (if P x then count_list xs x else 0)"
  by (induction xs) auto

lemma count_list_sort: "count_list (sort xs) x = count_list xs x"
  using count_mset [of "sort xs" x] count_mset [of xs x] by simp

lemma get_files_list_filters:
  assumes "resolve_source glob a c = Inr (Some src)"
  shows "get_files_list glob a c =
           Inr (sort (dataset_filter (datasets a)
                        (case mode a of None \<Rightarrow> src | Some ms \<Rightarrow> mode_filter ms src)))"
  using assms
  by (cases "mode a") (simp_all add: get_files_list_def post_filter_def read_local_def)

text \<open>
  C5, as the code has it. In every input mode the list returned is sorted in the order of
  paths, and it is a rearrangement of the source listing after the mode filter (when
  \<open>--mode\<close> is given) and the dataset filter: every path occurs in it exactly as often as in
  the filtered listing. So a path that is returned is returned as often as the source
  listing has it, and the result has no duplicates when the source listing has none.
  Nothing removes a path that the source listing repeats.
\<close>

theorem resolver_sorted:
  assumes "get_files_list glob a c = Inr fl"
  shows "sorted fl \<and>
         (\<exists>src. resolve_source glob a c = Inr (Some src) \<and>
                mset fl = mset (dataset_filter (datasets a)
                                  (case mode a of None \<Rightarrow> src | Some ms \<Rightarrow> mode_filter ms src)) \<and>
                (\<forall>p \<in> set fl. count_list fl p = count_list src p) \<and>
                (distinct src \<longrightarrow> distinct fl))"
proof -
  from get_files_list_Inr_resolved [OF assms] obtain src where
    src: "resolve_source glob a c = Inr (Some src)" by blast
  let ?kept = "dataset_filter (datasets a)
                 (case mode a of None \<Rightarrow> src | Some ms \<Rightarrow> mode_filter ms src)"
  from get_files_list_filters [OF src] assms have fl: "fl = sort ?kept" by simp
  from get_files_list_resolved [OF src] assms obtain P where
    flP: "fl = sort (filter P src)" by auto
  have "sorted fl" by (simp add: fl)
  moreover have "mset fl = mset ?kept" by (simp add: fl)
  moreover have "\<forall>p \<in> set fl. count_list fl p = count_list src p"
    by (auto simp: flP count_list_sort count_list_filter)
  moreover have "distinct src \<longrightarrow> distinct fl" by (simp add: flP)
  ultimately show ?thesis using src by blast
qed

theorem resolver_sorted_witness:
  "sorted [[''a'', ''GrabCut_NoBRS.pickle''], [''b'', ''GrabCut_NoBRS.pickle''],
           [''b'', ''GrabCut_NoBRS.pickle'']] \<and>
   count_list [[''a'', ''GrabCut_NoBRS.pickle''], [''b'', ''GrabCut_NoBRS.pickle''],
               [''b'', ''GrabCut_NoBRS.pickle'']] [''b'', ''GrabCut_NoBRS.pickle'']
     = count_list [[''b'', ''GrabCut_NoBRS.pickle''], [''a'', ''GrabCut_NoBRS.pickle''],
                   [''DAVIS_NoBRS.pickle''], [''b'', ''GrabCut_NoBRS.pickle'']]
         [''b'', ''GrabCut_NoBRS.pickle''] \<and>
   mset [[''a'', ''GrabCut_NoBRS.pickle''], [''b'', ''GrabCut_NoBRS.pickle''],
         [''b'', ''GrabCut_NoBRS.pickle'']]
     = mset (dataset_filter [''GrabCut'']
               [[''b'', ''GrabCut_NoBRS.pickle''], [''a'', ''GrabCut_NoBRS.pickle''],
                [''DAVIS_NoBRS.pickle''], [''b'', ''GrabCut_NoBRS.pickle'']])"
proof -
  let ?a = "\<lparr>folder = None,
             files = Some [''b/GrabCut_NoBRS.pickle'', ''a/GrabCut_NoBRS.pickle'',
                           ''DAVIS_NoBRS.pickle'', ''b/GrabCut_NoBRS.pickle''],
             model_dirs = None, exp_models = None, mode = None,
             datasets = [''GrabCut''], n_clicks = - 1, plots_path = [''plots'']\<rparr>"
  let ?c = "\<lparr>EXPS_PATH = [''experiments'']\<rparr>"
  let ?glob = "\<lambda>(d :: path) (p :: string). Inr [] :: error + path list"
  let ?fl = "[[''a'', ''GrabCut_NoBRS.pickle''], [''b'', ''GrabCut_NoBRS.pickle''],
              [''b'', ''GrabCut_NoBRS.pickle'']]"
  let ?src = "[[''b'', ''GrabCut_NoBRS.pickle''], [''a'', ''GrabCut_NoBRS.pickle''],
               [''DAVIS_NoBRS.pickle''], [''b'', ''GrabCut_NoBRS.pickle'']]"
  have run: "get_files_list ?glob ?a ?c = Inr ?fl"
    by code_simp
  have res: "resolve_source ?glob ?a ?c = Inr (Some ?src)"
    by code_simp
  from resolver_sorted [OF run] obtain src where
    s: "sorted ?fl" "resolve_source ?glob ?a ?c = Inr (Some src)"
       "mset ?fl = mset (dataset_filter (datasets ?a)
                           (case mode ?a of None \<Rightarrow> src | Some ms \<Rightarrow> mode_filter ms src))"
       "\<forall>p \<in> set ?fl. count_list ?fl p = count_list src p"
    by blast
  from s(2) res have src: "src = ?src" by simp
  from s(4) have "count_list ?fl [''b'', ''GrabCut_NoBRS.pickle'']
                    = count_list src [''b'', ''GrabCut_NoBRS.pickle'']"
    by simp
  with s(1,3) show ?thesis unfolding src by simp
qed

text \<open>
  C5 as stated fails: a path given twice to \<open>--files\<close> is returned twice.
\<close>

theorem files_duplicates_kept:
  "get_files_list (\<lambda>d p. Inr [])
     \<lparr>folder = None, files = Some [''GrabCut_NoBRS.pickle'', ''GrabCut_NoBRS.pickle''],
      model_dirs = None, exp_models = None, mode = None,
      datasets = [''GrabCut''], n_clicks = - 1, plots_path = [''plots'']\<rparr>
     \<lparr>EXPS_PATH = [''experiments'']\<rparr>
     = Inr [[''GrabCut_NoBRS.pickle''], [''GrabCut_NoBRS.pickle'']] \<and>
   \<not> distinct [[''GrabCut_NoBRS.pickle''], [''GrabCut_NoBRS.pickle'']]"
  by (simp add: get_files_list_def resolve_source_def post_filter_def read_local_def
      dataset_filter_def Path_def stem_def name_def stem_of_name_def is_root_def)

subsection \<open>Experiment paths\<close>

lemma exp_models_loop_append:
  "exp_models_loop glob c before files_list = Inr acc \<Longrightarrow>
   exp_models_loop glob c (before @ rest) files_list = exp_models_loop glob c rest acc"
proof (induction before arbitrary: files_list)
  case Nil
  then show ?case by simp
next
  case (Cons e es)
  from Cons.prems obtain r p where split: "split_chr CHR '':'' e = [r, p]"
    by (auto split: list.splits)
  from Cons.prems split obtain cands where cands: "exp_candidates glob c r = Inr cands"
    by (cases "exp_candidates glob c r") auto
  from Cons.prems split cands have one: "length cands = 1"
    by (auto split: if_splits)
  from Cons.prems split cands one obtain found where
    found: "glob (joinpath (cands ! 0) ''plots'') (p @ ''*.pickle'') = Inr found"
    by (cases "glob (joinpath (cands ! 0) ''plots'') (p @ ''*.pickle'')") (auto simp: Let_def)
  from Cons.prems split cands one found
  have "exp_models_loop glob c es (files_list @ sort found) = Inr acc"
    by (simp add: Let_def)
  from Cons.IH [OF this] show ?case
    using split cands one found by (simp add: Let_def)
qed

lemma exp_models_loop_count:
  assumes "CHR '':'' \<notin> set rel" and "CHR '':'' \<notin> set pre"
    and "exp_candidates glob c rel = Inr cands" and "length cands \<noteq> 1"
  shows "exp_models_loop glob c ((rel @ CHR '':'' # pre) # rest) files_list = Inl AssertionError"
  using assms by (simp add: split_chr_one_sep)

text \<open>
  C7, as the code has it. In \<open>--exp-models\<close> mode, take an entry \<open>path:prefix\<close> that the loop
  reaches, every entry before it having been resolved. If the glob of its path fragment
  against the base path returns no entry or more than one entry, whether regular files or
  directories, the run fails with \<open>AssertionError\<close> and the state is the one it started in:
  no container file has been opened and nothing has been written.
\<close>

theorem exp_models_entry_count_fails:
  assumes "folder a = None" and "files a = None" and "model_dirs a = None"
    and "exp_models a = Some (before @ (rel @ CHR '':'' # pre) # rest)"
    and "exp_models_loop glob c before [] = Inr acc"
    and "CHR '':'' \<notin> set rel" and "CHR '':'' \<notin> set pre"
    and "exp_candidates glob c rel = Inr cands"
    and "length cands \<noteq> 1"
  shows "main mean glob pk a c w = (Inl AssertionError, w)"
proof -
  have "exp_models_loop glob c (before @ (rel @ CHR '':'' # pre) # rest) [] =
          exp_models_loop glob c ((rel @ CHR '':'' # pre) # rest) acc"
    using assms(5) by (rule exp_models_loop_append)
  also have "\<dots> = Inl AssertionError"
    using assms(6-9) by (rule exp_models_loop_count)
  finally have "get_files_list glob a c = Inl AssertionError"
    using assms(1-4) by (simp add: get_files_list_def resolve_source_def)
  then show ?thesis by (simp add: main_def)
qed

theorem exp_models_entry_count_fails_witness:
  "main column_mean
     (\<lambda>d p. if d = [''experiments'', ''evaluation_logs''] \<and> p = ''good*''
             then Inr [[''experiments'', ''evaluation_logs'', ''good_run'']]
             else if d = [''experiments'', ''evaluation_logs'', ''foo''] \<and> p = ''bar*''
             then Inr [[''experiments'', ''evaluation_logs'', ''foo'', ''bar_1''],
                       [''experiments'', ''evaluation_logs'', ''foo'', ''bar_2'']]
             else Inr [])
     (\<lambda>f. None)
     \<lparr>folder = None, files = None, model_dirs = None,
      exp_models = Some [''good:ckpt'', ''foo/bar:ckpt''],
      mode = None, datasets = [''GrabCut''], n_clicks = - 1, plots_path = [''plots'']\<rparr>
     \<lparr>EXPS_PATH = [''experiments'']\<rparr>
     \<lparr>opened = [], fs_files = [], saved = []\<rparr>
   = (Inl AssertionError, \<lparr>opened = [], fs_files = [], saved = []\<rparr>)"
proof -
  let ?glob = "\<lambda>(d :: path) (p :: string).
             if d = [''experiments'', ''evaluation_logs''] \<and> p = ''good*''
             then Inr [[''experiments'', ''evaluation_logs'', ''good_run'']]
             else if d = [''experiments'', ''evaluation_logs'', ''foo''] \<and> p = ''bar*''
             then Inr [[''experiments'', ''evaluation_logs'', ''foo'', ''bar_1''],
                       [''experiments'', ''evaluation_logs'', ''foo'', ''bar_2'']]
             else (Inr [] :: error + path list)"
  let ?a = "\<lparr>folder = None, files = None, model_dirs = None,
             exp_models = Some [''good:ckpt'', ''foo/bar:ckpt''],
             mode = None, datasets = [''GrabCut''], n_clicks = - 1, plots_path = [''plots'']\<rparr>"
  let ?c = "\<lparr>EXPS_PATH = [''experiments'']\<rparr>"
  have h1: "folder ?a = None" and h2: "files ?a = None" and h3: "model_dirs ?a = None"
    by simp_all
  have h4: "exp_models ?a = Some ([''good:ckpt''] @ (''foo/bar'' @ CHR '':'' # ''ckpt'') # [])"
    by simp
  have h5: "exp_models_loop ?glob ?c [''good:ckpt''] [] = Inr []"
    by code_simp
  have h6: "CHR '':'' \<notin> set ''foo/bar''" and h7: "CHR '':'' \<notin> set ''ckpt''"
    by simp_all
  have h8: "exp_candidates ?glob ?c ''foo/bar''
              = Inr [[''experiments'', ''evaluation_logs'', ''foo'', ''bar_1''],
                     [''experiments'', ''evaluation_logs'', ''foo'', ''bar_2'']]"
    by code_simp
  have h9: "length [[''experiments'', ''evaluation_logs'', ''foo'', ''bar_1''],
                    [''experiments'', ''evaluation_logs'', ''foo'', ''bar_2'']] \<noteq> 1"
    by simp
  from exp_models_entry_count_fails [OF h1 h2 h3 h4 h5 h6 h7 h8 h9]
  show ?thesis .
qed

text \<open>
  C7 as stated fails. Under \<open>experiments/evaluation_logs/foo\<close> the only entry that matches
  \<open>bar*\<close> is the regular file \<open>bar.txt\<close>: the glob matches no directory, the \<open>assert\<close>
  passes on the single match, nothing is found below it, and the run ends without an
  error.
\<close>

theorem single_regular_file_passes:
  "exp_candidates
     (\<lambda>d p. if d = [''experiments'', ''evaluation_logs'', ''foo''] \<and> p = ''bar*''
             then Inr [[''experiments'', ''evaluation_logs'', ''foo'', ''bar.txt'']]
             else Inr [])
     \<lparr>EXPS_PATH = [''experiments'']\<rparr> ''foo/bar''
     = Inr [[''experiments'', ''evaluation_logs'', ''foo'', ''bar.txt'']] \<and>
   filter (\<lambda>p. p \<in> set [[''experiments''], [''experiments'', ''evaluation_logs''],
                           [''experiments'', ''evaluation_logs'', ''foo'']])
     [[''experiments'', ''evaluation_logs'', ''foo'', ''bar.txt'']] = [] \<and>
   main column_mean
     (\<lambda>d p. if d = [''experiments'', ''evaluation_logs'', ''foo''] \<and> p = ''bar*''
             then Inr [[''experiments'', ''evaluation_logs'', ''foo'', ''bar.txt'']]
             else Inr [])
     (\<lambda>f. None)
     \<lparr>folder = None, files = None, model_dirs = None, exp_models = Some [''foo/bar:ckpt''],
      mode = None, datasets = [''GrabCut''], n_clicks = - 1, plots_path = [''plots'']\<rparr>
     \<lparr>EXPS_PATH = [''experiments'']\<rparr>
     \<lparr>opened = [], fs_files = [], saved = []\<rparr>
   = (Inr (), \<lparr>opened = [], fs_files = [], saved = []\<rparr>)"
  by code_simp

section \<open>Properties of the target file path\<close>

subsection \<open>Three-digit indices\<close>

lemma digit_cases:
  "d < 10 \<Longrightarrow> d = 0 \<or> d = 1 \<or> d = 2 \<or> d = 3 \<or> d = 4 \<or> d = 5 \<or> d = 6 \<or> d = 7 \<or> d = 8 \<or> d = (9::nat)"
  by arith

lemma of_char_digit_chr: "d < 10 \<Longrightarrow> of_char (digit_chr d) = 48 + d"
  using digit_cases [of d] by (auto simp: digit_chr_def)

lemma digit_val_digit_chr: "d < 10 \<Longrightarrow> digit_val (digit_chr d) = d"
  by (simp add: digit_val_def of_char_digit_chr)

lemma is_digit_digit_chr: "d < 10 \<Longrightarrow> is_digit (digit_chr d)"
  using digit_cases [of d] by (auto simp: digit_chr_def is_digit_def)

lemma digit_chr_not_special:
  "d < 10 \<Longrightarrow> \<not> is_space (digit_chr d) \<and> digit_chr d \<noteq> CHR ''-'' \<and> digit_chr d \<noteq> CHR ''+'' \<and>
     digit_chr d \<noteq> CHR ''_'' \<and> digit_chr d \<noteq> CHR ''.'' \<and> digit_chr d \<noteq> CHR ''/''"
  using digit_cases [of d] by (auto simp: digit_chr_def is_space_def)

lemma digit_chr_0: "digit_chr 0 = CHR ''0''"
  by (simp add: digit_chr_def)

lemma digit_chr_less: "d < 10 \<Longrightarrow> e < 10 \<Longrightarrow> digit_chr d < digit_chr e \<longleftrightarrow> d < e"
  by (simp add: less_char_def of_char_digit_chr)

lemma digit_chr_eq: "d < 10 \<Longrightarrow> e < 10 \<Longrightarrow> digit_chr d = digit_chr e \<longleftrightarrow> d = e"
  by (metis digit_val_digit_chr)

lemma digits_lt_1000:
  "i < 1000 \<Longrightarrow> zfill 3 (digits i) = [digit_chr (i div 100), digit_chr (i div 10 mod 10), digit_chr (i mod 10)]"
proof -
  assume i: "i < 1000"
  consider "i < 10" | "10 \<le> i" "i < 100" | "100 \<le> i" by linarith
  then show ?thesis
  proof cases
    case 1
    then have "digits i = [digit_chr i]" by (simp add: digits.simps)
    with 1 show ?thesis by (simp add: zfill_def numeral_2_eq_2 digit_chr_0)
  next
    case 2
    then have a: "i div 10 < 10" by simp
    from 2 have "digits i = digits (i div 10) @ [digit_chr (i mod 10)]"
      by (subst digits.simps) simp
    also have "digits (i div 10) = [digit_chr (i div 10)]"
      using a by (simp add: digits.simps)
    finally have "digits i = [digit_chr (i div 10), digit_chr (i mod 10)]" by simp
    moreover have "i div 100 = 0" "i div 10 mod 10 = i div 10" using 2 a by simp_all
    ultimately show ?thesis by (simp add: zfill_def digit_chr_0)
  next
    case 3
    with i have a: "10 \<le> i div 10" "i div 10 < 100" "i div 10 div 10 < 10" by simp_all
    from 3 have "digits i = digits (i div 10) @ [digit_chr (i mod 10)]"
      by (subst digits.simps) simp
    also have "digits (i div 10) = digits (i div 10 div 10) @ [digit_chr (i div 10 mod 10)]"
      using a by (subst digits.simps) simp
    also have "digits (i div 10 div 10) = [digit_chr (i div 10 div 10)]"
      using a by (simp add: digits.simps)
    finally have "digits i = [digit_chr (i div 10 div 10), digit_chr (i div 10 mod 10), digit_chr (i mod 10)]"
      by simp
    moreover have "i div 10 div 10 = i div 100" by (simp add: div_mult2_eq [symmetric])
    ultimately show ?thesis by (simp add: zfill_def)
  qed
qed

lemma format_03d_lt_1000:
  "i < 1000 \<Longrightarrow> format_03d (int i) = [digit_chr (i div 100), digit_chr (i div 10 mod 10), digit_chr (i mod 10)]"
  by (simp add: format_03d_def digits_lt_1000)

lemma three_digits: "100 * (i div 100) + 10 * (i div 10 mod 10) + i mod 10 = (i::nat)"
proof -
  have "i div 10 = 10 * (i div 10 div 10) + i div 10 mod 10" by simp
  moreover have "i div 10 div 10 = i div 100" by (simp add: div_mult2_eq [symmetric])
  moreover have "i = 10 * (i div 10) + i mod 10" by simp
  ultimately show ?thesis by linarith
qed

lemma py_int_three_digits:
  assumes "a < 10" "b < 10" "c < 10"
  shows "py_int [digit_chr a, digit_chr b, digit_chr c] = Inr (int (100 * a + 10 * b + c))"
proof -
  let ?s = "[digit_chr a, digit_chr b, digit_chr c]"
  have strip: "strip ?s = ?s"
    using digit_chr_not_special [OF assms(1)] digit_chr_not_special [OF assms(3)]
    by (simp add: strip_def)
  have val: "digits_val ?s = 100 * a + 10 * b + c"
    using assms by (simp add: digits_val_def digit_val_digit_chr)
  have sign: "\<not> startswith ?s ''-''" "\<not> startswith ?s ''+''"
    using digit_chr_not_special [OF assms(1)] by simp_all
  have dig: "list_all is_digit ?s"
    using assms by (simp add: is_digit_digit_chr)
  show ?thesis
    unfolding py_int_def strip Let_def using sign dig val by simp
qed
lemma py_int_format_03d: "i < 1000 \<Longrightarrow> py_int (format_03d (int i)) = Inr (int i)"
proof -
  assume i: "i < 1000"
  have lt: "i div 100 < 10" "i div 10 mod 10 < 10" "i mod 10 < 10" using i by simp_all
  show ?thesis
    unfolding format_03d_lt_1000 [OF i] py_int_three_digits [OF lt] three_digits ..
qed

lemma three_digits_less:
  assumes "a < 10" "b < 10" "c < 10" "a' < 10" "b' < 10" "c' < 10"
  shows "[digit_chr a, digit_chr b, digit_chr c] @ s < [digit_chr a', digit_chr b', digit_chr c'] @ s
         \<longleftrightarrow> 100 * a + 10 * b + c < 100 * a' + 10 * b' + c'"
proof -
  have "[digit_chr a, digit_chr b, digit_chr c] @ s < [digit_chr a', digit_chr b', digit_chr c'] @ s
        \<longleftrightarrow> a < a' \<or> a = a' \<and> (b < b' \<or> b = b' \<and> c < c')"
    using assms by (simp add: digit_chr_less digit_chr_eq)
  also have "\<dots> \<longleftrightarrow> 100 * a + 10 * b + c < 100 * a' + 10 * b' + c'"
    using assms by arith
  finally show ?thesis .
qed

lemma format_03d_less:
  assumes "i < 1000" and "j < 1000"
  shows "format_03d (int i) @ s < format_03d (int j) @ s \<longleftrightarrow> i < j"
proof -
  have lti: "i div 100 < 10" "i div 10 mod 10 < 10" "i mod 10 < 10" using assms(1) by simp_all
  have ltj: "j div 100 < 10" "j div 10 mod 10 < 10" "j mod 10 < 10" using assms(2) by simp_all
  show ?thesis
    unfolding format_03d_lt_1000 [OF assms(1)] format_03d_lt_1000 [OF assms(2)]
      three_digits_less [OF lti ltj] three_digits ..
qed

subsection \<open>Plot files in the output directory\<close>

lemma digits_all_digit: "list_all is_digit (digits n)"
proof (induction n rule: digits.induct)
  case (1 n)
  show ?case
  proof (cases "n < 10")
    case True
    then show ?thesis by (subst digits.simps) (simp add: is_digit_digit_chr)
  next
    case False
    with 1 have "list_all is_digit (digits (n div 10))" by simp
    moreover have "is_digit (digit_chr (n mod 10))" by (simp add: is_digit_digit_chr)
    ultimately show ?thesis using False by (subst digits.simps) simp
  qed
qed

lemma format_03d_chars: "0 \<le> k \<Longrightarrow> list_all is_digit (format_03d k)"
proof -
  assume "0 \<le> k"
  moreover have "is_digit CHR ''0''" by (simp add: is_digit_def)
  then have "list_all is_digit (replicate m CHR ''0'')" for m
    by (induction m) simp_all
  ultimately show ?thesis
    using digits_all_digit [of "nat k"] by (simp add: format_03d_def zfill_def)
qed

lemma plot_file_name_no_slash:
  assumes "plain ds" and "0 \<le> k"
  shows "CHR ''/'' \<notin> set (plot_file_name ds k)"
proof -
  have "CHR ''/'' \<notin> set ds" using assms(1) by (auto simp: plain_def)
  moreover have "CHR ''/'' \<notin> set (format_03d k)"
    using format_03d_chars [OF assms(2)] by (auto simp: list_all_iff is_digit_def)
  ultimately show ?thesis by (simp add: plot_file_name_def)
qed

lemma Path_single:
  assumes "CHR ''/'' \<notin> set n" and "n \<noteq> []" and "n \<noteq> ''.''"
  shows "Path n = [n]"
proof -
  have "\<not> startswith n ''/''"
    using assms(1) by (cases n) auto
  then show ?thesis
    using assms by (simp add: Path_def split_chr_no_sep)
qed

lemma plot_file_name_shape:
  "plot_file_name ds k \<noteq> [] \<and> plot_file_name ds k \<noteq> ''.'' \<and> \<not> is_root (plot_file_name ds k)"
proof -
  have "length (plot_file_name ds k) \<ge> 5" by (simp add: plot_file_name_def)
  then show ?thesis by (auto simp: is_root_def)
qed

lemma joinpath_plot_file_name:
  assumes "plain ds" and "0 \<le> k"
  shows "joinpath pp (plot_file_name ds k) = pp @ [plot_file_name ds k]"
proof -
  have "Path (plot_file_name ds k) = [plot_file_name ds k]"
    using plot_file_name_no_slash [OF assms] plot_file_name_shape [of ds k]
    by (intro Path_single) simp_all
  then show ?thesis
    using plot_file_name_shape [of ds k] by (simp add: joinpath_def is_absolute_def)
qed

lemma name_snoc: "\<not> is_root n \<Longrightarrow> name (pp @ [n]) = n"
  by (simp add: name_def)

lemma parent_snoc: "\<not> is_root n \<Longrightarrow> parent (pp @ [n]) = pp"
  by (simp add: parent_def)

lemma glob_plots_member:
  assumes "p \<in> set (glob_plots fs pp ds)"
  shows "p \<in> set fs \<and> p = pp @ [name p]"
proof -
  from assms have fs: "p \<in> set fs" and ne: "p \<noteq> pp" and par: "parent p = pp"
    by (simp_all add: glob_plots_def)
  show ?thesis
  proof (cases "rev p")
    case Nil
    with ne par show ?thesis by (simp add: parent_def)
  next
    case (Cons x xs)
    then have p: "p = rev xs @ [x]" by (metis rev_rev_ident rev.simps(2))
    show ?thesis
    proof (cases "xs = [] \<and> is_root x")
      case True
      with Cons ne par show ?thesis by (simp add: parent_def)
    next
      case False
      with Cons par have "pp = rev xs" by (auto simp: parent_def)
      moreover from False Cons have "name p = x" by (auto simp: name_def)
      ultimately show ?thesis using p fs by simp
    qed
  qed
qed

lemma endswith_append: "endswith (u @ s) s"
  by (simp add: endswith_def startswith_iff)

lemma plot_file_in_glob:
  assumes "pp @ [plot_file_name ds k] \<in> set fs"
  shows "pp @ [plot_file_name ds k] \<in> set (glob_plots fs pp ds)"
proof -
  let ?n = "plot_file_name ds k"
  have nr: "\<not> is_root ?n" using plot_file_name_shape by simp
  have "startswith ?n (ds @ ''_'')"
    by (simp add: startswith_iff plot_file_name_def)
  moreover have "endswith ?n ''.png''"
    using endswith_append [of "ds @ ''_'' @ format_03d k" "''.png''"]
    by (simp add: plot_file_name_def)
  moreover have "length (ds @ ''_'') + length ''.png'' \<le> length ?n"
    by (simp add: plot_file_name_def)
  ultimately have "fnmatch_star (ds @ ''_'') ''.png'' ?n"
    by (simp add: fnmatch_star_def)
  then show ?thesis
    using assms nr by (simp add: glob_plots_def name_snoc parent_snoc)
qed

lemma rfind_dot_append:
  "CHR ''.'' \<notin> set t \<Longrightarrow> rfind_dot (s @ CHR ''.'' # t) = Some (length s)"
proof (induction s)
  case Nil
  have "rfind_dot t = None" using Nil by (induction t) auto
  then show ?case by simp
next
  case (Cons c s)
  then show ?case by simp
qed

lemma stem_plot_file:
  "stem (pp @ [plot_file_name ds k]) = ds @ ''_'' @ format_03d k"
proof -
  let ?s = "ds @ ''_'' @ format_03d k"
  have n: "plot_file_name ds k = ?s @ CHR ''.'' # ''png''"
    by (simp add: plot_file_name_def)
  have "rfind_dot (?s @ CHR ''.'' # ''png'') = Some (length ?s)"
    by (rule rfind_dot_append) simp
  then have "stem_of_name (plot_file_name ds k) = ?s"
    unfolding n by (simp add: stem_of_name_def)
  then show ?thesis
    using plot_file_name_shape [of ds k] by (simp add: stem_def name_snoc)
qed

lemma split_chr_nonempty: "split_chr sep s \<noteq> []"
  by (induction s) (auto split: list.splits)

lemma split_chr_append: "split_chr sep (u @ sep # v) = split_chr sep u @ split_chr sep v"
proof (induction u)
  case Nil
  then show ?case by simp
next
  case (Cons c u)
  obtain f fs where f: "split_chr sep u = f # fs"
    using split_chr_nonempty [of sep u] by (cases "split_chr sep u") auto
  with Cons show ?case by simp
qed

lemma last_field:
  assumes "sep \<notin> set v"
  shows "last (split_chr sep (u @ sep # v)) = v"
  by (simp add: split_chr_append split_chr_no_sep [OF assms])

lemma format_03d_no_underscore: "0 \<le> k \<Longrightarrow> CHR ''_'' \<notin> set (format_03d k)"
  using format_03d_chars [of k] by (auto simp: list_all_iff is_digit_def)

lemma index_of_plot_file:
  assumes "i < 1000"
  shows "py_int (last (split_chr CHR ''_'' (stem (pp @ [plot_file_name ds (int i)])))) = Inr (int i)"
proof -
  have "last (split_chr CHR ''_'' (ds @ CHR ''_'' # format_03d (int i))) = format_03d (int i)"
    by (rule last_field) (simp add: format_03d_no_underscore)
  then show ?thesis
    by (simp add: stem_plot_file py_int_format_03d [OF assms])
qed

lemma same_prefix_less: "xs @ ys < xs @ zs \<longleftrightarrow> ys < (zs :: 'a :: linorder list)"
  by (induction xs) simp_all

lemma plot_file_less:
  assumes "i < 1000" and "j < 1000"
  shows "pp @ [plot_file_name ds (int i)] < pp @ [plot_file_name ds (int j)] \<longleftrightarrow> i < j"
proof -
  have "plot_file_name ds (int i) < plot_file_name ds (int j) \<longleftrightarrow>
        format_03d (int i) @ ''.png'' < format_03d (int j) @ ''.png''"
    using same_prefix_less [of "ds @ ''_''" "format_03d (int i) @ ''.png''" "format_03d (int j) @ ''.png''"]
    by (simp add: plot_file_name_def)
  also have "\<dots> \<longleftrightarrow> i < j" using assms by (rule format_03d_less)
  finally have names: "plot_file_name ds (int i) < plot_file_name ds (int j) \<longleftrightarrow> i < j" .
  show ?thesis
    using names by (auto simp: same_prefix_less)
qed

lemma sorted_le_last: "sorted xs \<Longrightarrow> x \<in> set xs \<Longrightarrow> x \<le> last xs"
  by (induction xs) auto

text \<open>
  C8, as the code has it. For a dataset display name without glob or path characters and
  an output directory in which every file matching \<open><name>_*.png\<close> is \<open><name>_<index>.png\<close>
  with a three-digit index: the chosen file is the display name, an underscore and the
  index padded with zeros to three digits, where the index is \<open>0\<close> when no such file exists
  and otherwise one greater than the highest index present.
\<close>

theorem target_index_next:
  assumes "plain ds"
    and "\<forall>p \<in> set (glob_plots fs pp ds). \<exists>i < 1000. name p = plot_file_name ds (int i)"
  shows "\<exists>k. get_target_file_path fs pp ds = Inr (pp @ [plot_file_name ds (int k)]) \<and>
           (glob_plots fs pp ds = [] \<longrightarrow> k = 0) \<and>
           (glob_plots fs pp ds \<noteq> [] \<longrightarrow>
              (\<exists>j < 1000. k = Suc j \<and> pp @ [plot_file_name ds (int j)] \<in> set fs \<and>
                 (\<forall>i < 1000. pp @ [plot_file_name ds (int i)] \<in> set fs \<longrightarrow> i \<le> j)))"
proof (cases "glob_plots fs pp ds = []")
  case True
  then have "get_target_file_path fs pp ds = Inr (joinpath pp (plot_file_name ds 0))"
    by (simp add: get_target_file_path_def)
  then have "get_target_file_path fs pp ds = Inr (pp @ [plot_file_name ds (int 0)])"
    using joinpath_plot_file_name [OF assms(1), of 0 pp] by simp
  with True show ?thesis by blast
next
  case False
  let ?ps = "sort (glob_plots fs pp ds)"
  let ?m = "last ?ps"
  have ne: "?ps \<noteq> []" using False by (metis length_0_conv length_sort)
  then have "?m \<in> set ?ps" by (rule last_in_set)
  then have m_in: "?m \<in> set (glob_plots fs pp ds)" by simp
  from assms(2) m_in obtain j where j: "j < 1000" "name ?m = plot_file_name ds (int j)"
    by blast
  have m_fs: "?m \<in> set fs"
    using glob_plots_member [OF m_in] by (rule conjunct1)
  have "?m = pp @ [name ?m]"
    using glob_plots_member [OF m_in] by (rule conjunct2)
  then have m: "?m = pp @ [plot_file_name ds (int j)]"
    unfolding j(2) .
  have idx: "py_int (last (split_chr CHR ''_'' (stem ?m))) = Inr (int j)"
    unfolding m using j(1) by (rule index_of_plot_file)
  have "get_target_file_path fs pp ds = Inr (joinpath pp (plot_file_name ds (int j + 1)))"
    using ne idx by (simp add: get_target_file_path_def Let_def)
  moreover have "int j + 1 = int (Suc j)" by simp
  ultimately have res: "get_target_file_path fs pp ds = Inr (pp @ [plot_file_name ds (int (Suc j))])"
    using joinpath_plot_file_name [OF assms(1), of "int (Suc j)" pp] by simp
  have top: "i \<le> j" if i: "i < 1000" and mem: "pp @ [plot_file_name ds (int i)] \<in> set fs" for i
  proof -
    from plot_file_in_glob [OF mem] have "pp @ [plot_file_name ds (int i)] \<in> set ?ps" by simp
    then have "pp @ [plot_file_name ds (int i)] \<le> ?m"
      using sorted_le_last [of ?ps] by simp
    then have "\<not> pp @ [plot_file_name ds (int j)] < pp @ [plot_file_name ds (int i)]"
      using m by simp
    then show ?thesis
      using plot_file_less [OF j(1) i] by simp
  qed
  from m m_fs have "pp @ [plot_file_name ds (int j)] \<in> set fs" by simp
  with res j(1) top False show ?thesis by blast
qed

text \<open>
  Three successive renders for \<open>GrabCut\<close> into an empty directory, each figure saved before
  the next path is chosen.
\<close>

lemma three_renders_GrabCut:
  "get_target_file_path [] [''plots''] ''GrabCut'' = Inr [''plots'', ''GrabCut_000.png''] \<and>
   get_target_file_path [[''plots'', ''GrabCut_000.png'']] [''plots''] ''GrabCut''
     = Inr [''plots'', ''GrabCut_001.png''] \<and>
   get_target_file_path [[''plots'', ''GrabCut_001.png''], [''plots'', ''GrabCut_000.png'']]
     [''plots''] ''GrabCut'' = Inr [''plots'', ''GrabCut_002.png'']"
  by code_simp

text \<open>
  C8 as stated fails for a directory that holds a matching file without a numeric index:
  \<open>int\<close> raises and no file name is chosen.
\<close>

theorem target_path_non_numeric:
  "get_target_file_path [[''plots'', ''GrabCut_final.png'']] [''plots''] ''GrabCut''
     = Inl ValueError"
  by code_simp

text \<open>
  Once an index has four digits the last file in path order is no longer the one with the
  highest index: with \<open>GrabCut_999.png\<close> and \<open>GrabCut_1000.png\<close> present, the path chosen is
  that of the existing \<open>GrabCut_1000.png\<close>.
\<close>

lemma target_index_after_1000:
  "get_target_file_path [[''plots'', ''GrabCut_999.png''], [''plots'', ''GrabCut_1000.png'']]
     [''plots''] ''GrabCut'' = Inr [''plots'', ''GrabCut_1000.png''] \<and>
   [''plots'', ''GrabCut_1000.png'']
     \<in> set [[''plots'', ''GrabCut_999.png''], [''plots'', ''GrabCut_1000.png'']]"
  by code_simp

theorem target_index_next_witness:
  "plain ''GrabCut'' \<and>
   (\<exists>j < 1000.
      get_target_file_path [[''plots'', ''GrabCut_000.png''], [''plots'', ''GrabCut_001.png'']]
        [''plots''] ''GrabCut'' = Inr ([''plots''] @ [plot_file_name ''GrabCut'' (int (Suc j))]) \<and>
      [''plots''] @ [plot_file_name ''GrabCut'' (int j)]
        \<in> set [[''plots'', ''GrabCut_000.png''], [''plots'', ''GrabCut_001.png'']])"
proof -
  let ?fs = "[[''plots'', ''GrabCut_000.png''], [''plots'', ''GrabCut_001.png'']]"
  have pl: "plain ''GrabCut''" by (simp add: plain_def)
  have g: "glob_plots ?fs [''plots''] ''GrabCut'' = ?fs" by code_simp
  have n0: "name [''plots'', ''GrabCut_000.png''] = plot_file_name ''GrabCut'' (int 0)"
    by code_simp
  have n1: "name [''plots'', ''GrabCut_001.png''] = plot_file_name ''GrabCut'' (int 1)"
    by code_simp
  have e0: "\<exists>i < 1000. name [''plots'', ''GrabCut_000.png''] = plot_file_name ''GrabCut'' (int i)"
    using n0 by (intro exI [of _ 0]) simp
  have e1: "\<exists>i < 1000. name [''plots'', ''GrabCut_001.png''] = plot_file_name ''GrabCut'' (int i)"
    using n1 by (intro exI [of _ 1]) simp
  have h: "\<forall>p \<in> set (glob_plots ?fs [''plots''] ''GrabCut'').
             \<exists>i < 1000. name p = plot_file_name ''GrabCut'' (int i)"
    unfolding g using e0 e1 by simp
  have ne: "glob_plots ?fs [''plots''] ''GrabCut'' \<noteq> []" unfolding g by simp
  from target_index_next [OF pl h] ne pl show ?thesis by blast
qed

section \<open>Properties of the render loop\<close>

lemma render_dataset_ok:
  assumes "render_dataset a ds results w = (Inr u, w')"
  shows "\<exists>p fig. w' = savefig p fig w \<and> title fig = display_name ds"
proof -
  from assms obtain p cvs rng mc where
    "w' = savefig p \<lparr>title = display_name ds, curves = cvs, yticks = rng, xticks = mc\<rparr> w"
    by (auto simp: render_dataset_def Let_def split: sum.splits option.splits prod.splits)
  moreover have
    "title \<lparr>title = display_name ds, curves = cvs, yticks = rng, xticks = mc\<rparr> = display_name ds"
    by simp
  ultimately show ?thesis by blast
qed

lemma render_loop_append:
  "render_loop a pre w = (Inr u, w1) \<Longrightarrow> render_loop a (pre @ rest) w = render_loop a rest w1"
proof (induction pre arbitrary: w)
  case Nil
  then show ?case by simp
next
  case (Cons d pre)
  obtain ds results where d: "d = (ds, results)" by (cases d)
  obtain r w' where r: "render_dataset a ds results w = (r, w')"
    by (cases "render_dataset a ds results w")
  show ?case
  proof (cases r)
    case (Inl e)
    with Cons.prems d r show ?thesis by simp
  next
    case (Inr v)
    with Cons.prems d r have "render_loop a pre w' = (Inr u, w1)" by simp
    from Cons.IH [OF this] Inr d r show ?thesis by simp
  qed
qed

lemma render_loop_saved:
  "render_loop a pre w = (Inr u, w1) \<Longrightarrow> set (map fst (saved w)) \<subseteq> set (fs_files w) \<Longrightarrow>
   opened w1 = opened w \<and>
   (\<exists>new. saved w1 = saved w @ new \<and>
          map (title \<circ> snd) new = map (display_name \<circ> fst) pre) \<and>
   set (map fst (saved w1)) \<subseteq> set (fs_files w1)"
proof (induction pre arbitrary: w)
  case Nil
  then show ?case by simp
next
  case (Cons d pre)
  obtain ds results where d: "d = (ds, results)" by (cases d)
  obtain r w' where r: "render_dataset a ds results w = (r, w')"
    by (cases "render_dataset a ds results w")
  show ?case
  proof (cases r)
    case (Inl e)
    with Cons.prems d r show ?thesis by simp
  next
    case (Inr v)
    with Cons.prems d r have loop: "render_loop a pre w' = (Inr u, w1)" by simp
    from render_dataset_ok r Inr obtain p fig where
      w': "w' = savefig p fig w" and t: "title fig = display_name ds" by blast
    have sub: "set (map fst (saved w')) \<subseteq> set (fs_files w')"
      using Cons.prems(2) by (auto simp: w' savefig_def)
    from Cons.IH [OF loop sub] obtain new where
      o: "opened w1 = opened w'" and
      n: "saved w1 = saved w' @ new" "map (title \<circ> snd) new = map (display_name \<circ> fst) pre" and
      s: "set (map fst (saved w1)) \<subseteq> set (fs_files w1)"
      by blast
    have "saved w1 = saved w @ ((p, fig) # new)"
      using n(1) by (simp add: w' savefig_def)
    moreover have "map (title \<circ> snd) ((p, fig) # new) = map (display_name \<circ> fst) (d # pre)"
      using n(2) t d by simp
    moreover have "opened w1 = opened w" using o by (simp add: w' savefig_def)
    ultimately show ?thesis using s by blast
  qed
qed

lemma render_loop_ranges:
  "render_loop a pre w = (Inr u, w1) \<Longrightarrow>
   \<forall>d \<in> set pre. dict_get range_mapper (display_name (fst d)) \<noteq> None"
proof (induction pre arbitrary: w)
  case Nil
  then show ?case by simp
next
  case (Cons d pre)
  obtain ds results where d: "d = (ds, results)" by (cases d)
  obtain r w' where r: "render_dataset a ds results w = (r, w')"
    by (cases "render_dataset a ds results w")
  show ?case
  proof (cases r)
    case (Inl e)
    with Cons.prems d r show ?thesis by simp
  next
    case (Inr v)
    with Cons.prems d r have loop: "render_loop a pre w' = (Inr u, w1)" by simp
    from r Inr have "dict_get range_mapper (display_name ds) \<noteq> None"
      by (auto simp: render_dataset_def Let_def split: sum.splits option.splits prod.splits)
    with Cons.IH [OF loop] d show ?thesis by simp
  qed
qed

lemma render_dataset_missing_range:
  assumes "dict_get range_mapper (display_name ds) = None"
  shows "render_dataset a ds results w =
           (Inl (case models_loop (n_clicks a) results [] 0 of
                   Inl e \<Rightarrow> e
                 | Inr r \<Rightarrow> KeyError), w)"
  using assms by (simp add: render_dataset_def split: sum.splits prod.splits)

lemma aggregate_loop_writes_nothing:
  "aggregate_loop mean pk n fl agg w = (r, w') \<Longrightarrow>
   saved w' = saved w \<and> fs_files w' = fs_files w"
proof (induction fl arbitrary: agg w)
  case Nil
  then show ?case by auto
next
  case (Cons f rest)
  let ?w = "w\<lparr>opened := opened w @ [f]\<rparr>"
  show ?case
  proof (cases "pk f")
    case None
    with Cons.prems show ?thesis by auto
  next
    case (Some data)
    show ?thesis
    proof (cases "aggregate_container mean n data agg")
      case (Inl e)
      with Some Cons.prems show ?thesis by auto
    next
      case (Inr agg')
      with Some Cons.prems have "aggregate_loop mean pk n rest agg' ?w = (r, w')"
        by (simp add: Let_def)
      from Cons.IH [OF this] show ?thesis by simp
    qed
  qed
qed

text \<open>
  The line of a model whose label maps to the colour \<open>''\<close> is refused: the two
  \<open>CDNet-ResNet-34\<close> entries of \<open>color_style_mapper\<close>.
\<close>

lemma empty_colour_refused:
  "plot_model (- 1) ''sbd_cdnet_resnet34_CDNet'' (Array [1 / 2, 1]) = Inl ValueError \<and>
   plot_model (- 1) ''cocolvis_cdnet_resnet34_CDNet'' (Array [1 / 2, 1]) = Inl ValueError"
  by code_simp

text \<open>
  C9, as the code has it. Take a run that starts with nothing saved and comes to render a
  dataset whose display name is absent from \<open>range_mapper\<close>: the file list is resolved,
  every container is aggregated, and the datasets before it have been rendered. The run
  ends with an uncaught exception in the state left by the earlier datasets. The
  exception is the \<open>KeyError\<close> of the lookup when every curve of the dataset has been
  drawn, and otherwise the error of the first curve that fails, raised before the lookup
  is reached. The state holds one saved figure for each earlier dataset, in order, each
  file present, and none under the display name of the failing dataset.
\<close>

theorem missing_range_render_fails:
  assumes "saved w = []"
    and "get_files_list glob a c = Inr fl"
    and "aggregate_loop mean pk (n_clicks a) fl [] w = (Inr (pre @ (ds, results) # post), w0)"
    and "render_loop a pre w0 = (Inr u, w1)"
    and "dict_get range_mapper (display_name ds) = None"
  shows "main mean glob pk a c w =
           (Inl (case models_loop (n_clicks a) results [] 0 of
                   Inl e \<Rightarrow> e
                 | Inr r \<Rightarrow> KeyError), w1) \<and>
         map (title \<circ> snd) (saved w1) = map (display_name \<circ> fst) pre \<and>
         display_name ds \<notin> set (map (title \<circ> snd) (saved w1)) \<and>
         set (map fst (saved w1)) \<subseteq> set (fs_files w1)"
proof -
  let ?e = "case models_loop (n_clicks a) results [] 0 of Inl e \<Rightarrow> e | Inr r \<Rightarrow> KeyError"
  have "render_loop a (pre @ (ds, results) # post) w0 = render_loop a ((ds, results) # post) w1"
    using assms(4) by (rule render_loop_append)
  also have "\<dots> = (Inl ?e, w1)"
    using render_dataset_missing_range [OF assms(5), of a results w1] by simp
  finally have run: "main mean glob pk a c w = (Inl ?e, w1)"
    using assms(2,3) by (simp add: main_def)
  have empty: "saved w0 = []"
    using aggregate_loop_writes_nothing [OF assms(3)] assms(1) by simp
  then have "set (map fst (saved w0)) \<subseteq> set (fs_files w0)" by simp
  from render_loop_saved [OF assms(4) this] empty
  have titles: "map (title \<circ> snd) (saved w1) = map (display_name \<circ> fst) pre"
    and present: "set (map fst (saved w1)) \<subseteq> set (fs_files w1)"
    by auto
  have "display_name ds \<notin> set (map (display_name \<circ> fst) pre)"
    using render_loop_ranges [OF assms(4)] assms(5) by auto
  with titles have "display_name ds \<notin> set (map (title \<circ> snd) (saved w1))" by simp
  with run titles present show ?thesis by blast
qed

theorem missing_range_render_fails_witness:
  "main column_mean (\<lambda>d p. Inr [])
     (\<lambda>f. if f = [''GrabCut_NoBRS.pickle'']
          then Some \<lparr>dataset_name = ''GrabCut'', model_name = ''m'', all_ious = [[1 / 2, 1]]\<rparr>
          else if f = [''Unknown_NoBRS.pickle'']
          then Some \<lparr>dataset_name = ''Unknown'', model_name = ''m'', all_ious = [[1 / 4, 1 / 2]]\<rparr>
          else None)
     \<lparr>folder = None, files = Some [''Unknown_NoBRS.pickle'', ''GrabCut_NoBRS.pickle''],
      model_dirs = None, exp_models = None, mode = None,
      datasets = [''GrabCut'', ''Unknown''], n_clicks = - 1, plots_path = [''plots'']\<rparr>
     \<lparr>EXPS_PATH = [''experiments'']\<rparr>
     \<lparr>opened = [], fs_files = [], saved = []\<rparr>
   = (Inl KeyError,
      \<lparr>opened = [[''GrabCut_NoBRS.pickle''], [''Unknown_NoBRS.pickle'']],
       fs_files = [[''plots'', ''GrabCut_000.png'']],
       saved = [([''plots'', ''GrabCut_000.png''],
                 \<lparr>title = ''GrabCut'',
                  curves = [\<lparr>label = ''m'', auc_norm = 75, color_style = None,
                             points = [50, 100]\<rparr>],
                  yticks = (80, 100, 2), xticks = 2\<rparr>)]\<rparr>)"
proof -
  let ?glob = "\<lambda>(d :: path) (p :: string). Inr [] :: error + path list"
  let ?pk = "\<lambda>f. if f = [''GrabCut_NoBRS.pickle'']
          then Some \<lparr>dataset_name = ''GrabCut'', model_name = ''m'', all_ious = [[1 / 2, 1]]\<rparr>
          else if f = [''Unknown_NoBRS.pickle'']
          then Some \<lparr>dataset_name = ''Unknown'', model_name = ''m'', all_ious = [[1 / 4, 1 / 2]]\<rparr>
          else None"
  let ?a = "\<lparr>folder = None, files = Some [''Unknown_NoBRS.pickle'', ''GrabCut_NoBRS.pickle''],
      model_dirs = None, exp_models = None, mode = None,
      datasets = [''GrabCut'', ''Unknown''], n_clicks = - 1, plots_path = [''plots'']\<rparr>"
  let ?c = "\<lparr>EXPS_PATH = [''experiments'']\<rparr>"
  let ?wini = "\<lparr>opened = [], fs_files = [], saved = []\<rparr>"
  let ?fl = "[[''GrabCut_NoBRS.pickle''], [''Unknown_NoBRS.pickle'']]"
  let ?wagg = "\<lparr>opened = ?fl, fs_files = [], saved = []\<rparr>"
  let ?wend = "\<lparr>opened = ?fl,
       fs_files = [[''plots'', ''GrabCut_000.png'']],
       saved = [([''plots'', ''GrabCut_000.png''],
                 \<lparr>title = ''GrabCut'',
                  curves = [\<lparr>label = ''m'', auc_norm = 75, color_style = None,
                             points = [50, 100]\<rparr>],
                  yticks = (80, 100, 2), xticks = 2\<rparr>)]\<rparr>"
  let ?pre = "[(''GrabCut'', [(''m'', Array [1 / 2, 1])])]"
  let ?res = "[(''m'', Array [1 / 4, 1 / 2])]"
  have h1: "get_files_list ?glob ?a ?c = Inr ?fl"
    by code_simp
  have h2: "aggregate_loop column_mean ?pk (n_clicks ?a) ?fl [] ?wini
              = (Inr (?pre @ (''Unknown'', ?res) # []), ?wagg)"
    by code_simp
  have h3: "render_loop ?a ?pre ?wagg = (Inr (), ?wend)"
    by code_simp
  have h4: "models_loop (n_clicks ?a) ?res [] 0
              = Inr ([\<lparr>label = ''m'', auc_norm = 75 / 2, color_style = None, points = [25, 50]\<rparr>], 2)"
    by code_simp
  have h5: "dict_get range_mapper (display_name ''Unknown'') = None"
    by code_simp
  have h0: "saved ?wini = []"
    by simp
  from missing_range_render_fails [OF h0 h1 h2 h3 h5]
  have "main column_mean ?glob ?pk ?a ?c ?wini =
          (Inl (case models_loop (n_clicks ?a) ?res [] 0 of Inl e \<Rightarrow> e | Inr r \<Rightarrow> KeyError),
           ?wend)"
    by (rule conjunct1)
  then show ?thesis unfolding h4 by simp
qed

text \<open>
  C9 as stated fails. The display name \<open>Unknown\<close> is absent from \<open>range_mapper\<close>, but the
  only curve of the dataset has a single click, for which \<open>metrics.auc\<close> raises
  \<open>ValueError\<close> at line 147: the run ends with that error, and line 160 with its lookup is
  never reached.
\<close>

theorem missing_range_other_error:
  "dict_get range_mapper (display_name ''Unknown'') = None \<and>
   main column_mean (\<lambda>d p. Inr [])
     (\<lambda>f. if f = [''Unknown_NoBRS.pickle'']
          then Some \<lparr>dataset_name = ''Unknown'', model_name = ''m'', all_ious = [[1 / 2]]\<rparr>
          else None)
     \<lparr>folder = None, files = Some [''Unknown_NoBRS.pickle''],
      model_dirs = None, exp_models = None, mode = None,
      datasets = [''Unknown''], n_clicks = - 1, plots_path = [''plots'']\<rparr>
     \<lparr>EXPS_PATH = [''experiments'']\<rparr>
     \<lparr>opened = [], fs_files = [], saved = []\<rparr>
   = (Inl ValueError,
      \<lparr>opened = [[''Unknown_NoBRS.pickle'']], fs_files = [], saved = []\<rparr>)"
  by code_simp

end
